theory Spec2Isabelle
  imports Complex_Main "HOL-Library.Monad_Syntax"
begin

section \<open>Study-log analysis: a model of \<^verbatim>\<open>studyplot.py\<close>\<close>

text \<open>
  The script reads a comma-separated log of study sessions, builds a gap-filled daily
  series with two trailing means, and bins the recent sessions minute by minute into a
  weekday by half-hour matrix.  Each Python function and each loop of
  \<^verbatim>\<open>analyze_study_data\<close> is a HOL function of the same name or role below.

  Conventions of the model:
  \<^item> a Python exception is a value \<open>Inl e\<close> of \<open>error + 'a\<close>;
  \<^item> \<open>str\<close> is \<open>string\<close>; only ASCII is modelled (the whitespace and digit
    classes of \<open>str.strip\<close>, \<open>int\<close> and \<open>strptime\<close> are their ASCII
    parts);
  \<^item> a \<open>timedelta\<close> is its whole number of seconds, a \<open>datetime\<close> produced by
    \<open>strptime\<close> (whose format has no fraction) is its number of seconds since
    0001-01-01 00:00:00, a \<open>date\<close> is its proleptic Gregorian ordinal;
  \<^item> floating-point numbers are exact rationals, NaN is \<open>None\<close>; the rounding of
    the float operations is not modelled;
  \<^item> pandas columns are lists in row order; the duration column has the 64-bit
    nanosecond storage of pandas, whose sums wrap around, when every duration fits
    it, and holds the \<open>timedelta\<close> objects otherwise; plotting is left out.
\<close>

subsection \<open>Exceptions\<close>

datatype error = ValueError | OverflowError | UnboundLocalError | KeyError

subsection \<open>Strings: \<open>in\<close>, \<open>split\<close>, \<open>strip\<close>, \<open>int\<close>\<close>

text \<open>\<open>s.split(c)\<close> for a one-character separator: every occurrence splits, and the
  result is never empty (\<open>"".split(",")\<close> is \<open>[""]\<close>).\<close>

fun split_on :: "char \<Rightarrow> string \<Rightarrow> string list" where
  "split_on c [] = [[]]"
| "split_on c (x # xs) =
     (let parts = split_on c xs
      in if x = c then [] # parts else (x # hd parts) # tl parts)"

text \<open>The ASCII characters for which \<open>str.isspace\<close> holds: tab to carriage return,
  the four separators 0x1C to 0x1F, and the space.\<close>

definition is_space :: "char \<Rightarrow> bool" where
  "is_space c = (let n = (of_char c :: nat) in (9 \<le> n \<and> n \<le> 13) \<or> (28 \<le> n \<and> n \<le> 32))"

definition is_digit :: "char \<Rightarrow> bool" where
  "is_digit c = (let n = (of_char c :: nat) in 48 \<le> n \<and> n \<le> 57)"

definition digit_val :: "char \<Rightarrow> int" where
  "digit_val c = int (of_char c) - 48"

definition strip :: "string \<Rightarrow> string" where
  "strip s = rev (dropWhile is_space (rev (dropWhile is_space s)))"

text \<open>The digit part of a decimal literal accepted by \<open>int\<close>: digits, with single
  underscores allowed between two digits.  The result is the digits without the
  underscores, \<open>None\<close> when the text is not of that shape.\<close>

fun int_digits :: "string \<Rightarrow> string option" where
  "int_digits [] = None"
| "int_digits [c] = (if is_digit c then Some [c] else None)"
| "int_digits (c # d # cs) =
     (if \<not> is_digit c then None
      else if d = CHR ''_'' then map_option (\<lambda>ds. c # ds) (int_digits cs)
      else map_option (\<lambda>ds. c # ds) (int_digits (d # cs)))"

definition max_str_digits :: nat where
  "max_str_digits = 4300"

definition digits_value :: "string \<Rightarrow> int" where
  "digits_value ds = foldl (\<lambda>a d. 10 * a + digit_val d) 0 ds"

text \<open>\<open>int(s)\<close> in base ten: surrounding whitespace is dropped, one sign is allowed,
  anything else raises \<open>ValueError\<close>, as does a literal of more than 4300 digits
  (CPython's default limit).  The whitespace that \<open>int\<close> drops is narrower than
  that of \<open>strip\<close>: of the ASCII characters only tab to carriage return and the
  space, not the separators 0x1C to 0x1F.\<close>

definition is_int_space :: "char \<Rightarrow> bool" where
  "is_int_space c = (let n = (of_char c :: nat) in (9 \<le> n \<and> n \<le> 13) \<or> n = 32)"

definition py_int :: "string \<Rightarrow> error + int" where
  "py_int s =
     (let t = rev (dropWhile is_int_space (rev (dropWhile is_int_space s)));
          (neg, body) = (case t of
                           c # cs \<Rightarrow> if c = CHR ''-'' then (True, cs)
                                     else if c = CHR ''+'' then (False, cs)
                                     else (False, t)
                         | [] \<Rightarrow> (False, t))
      in case int_digits body of
           None \<Rightarrow> Inl ValueError
         | Some ds \<Rightarrow>
             if max_str_digits < length ds then Inl ValueError
             else Inr (if neg then - digits_value ds else digits_value ds))"

subsection \<open>The duration parser\<close>

text \<open>\<open>timedelta(hours=h, minutes=m, seconds=s)\<close>, as its total of seconds.  The
  constructor raises \<open>OverflowError\<close> when the normalised day count leaves
  \<open>\<plusminus>999999999\<close>.\<close>

definition timedelta :: "int \<Rightarrow> int \<Rightarrow> int \<Rightarrow> error + int" where
  "timedelta h m s =
     (let total = h * 3600 + m * 60 + s; days = total div 86400
      in if days < - 999999999 \<or> 999999999 < days then Inl OverflowError else Inr total)"

text \<open>The three \<open>if\<close> blocks of \<open>parse_duration\<close>, one function each.  A block
  takes the text that is left and gives the unit's value and the text left for the next
  block: \<open>split(c)[0]\<close> is converted, \<open>split(c)[1]\<close> is kept (the text up to the
  next occurrence of the same marker).\<close>

definition take_unit :: "char \<Rightarrow> string \<Rightarrow> error + (int \<times> string)" where
  "take_unit c s =
     (if c \<in> set s then
        (case py_int (split_on c s ! 0) of
           Inl e \<Rightarrow> Inl e
         | Inr v \<Rightarrow> Inr (v, split_on c s ! 1))
      else Inr (0, s))"

text \<open>The values of \<open>hours\<close>, \<open>minutes\<close> and \<open>seconds\<close> at the \<open>return\<close> of
  \<open>parse_duration\<close>.\<close>

definition duration_fields :: "string \<Rightarrow> error + (int \<times> int \<times> int)" where
  "duration_fields duration_str =
     (case take_unit CHR ''h'' duration_str of
        Inl e \<Rightarrow> Inl e
      | Inr (hours, s1) \<Rightarrow>
          (case take_unit CHR ''m'' s1 of
             Inl e \<Rightarrow> Inl e
           | Inr (minutes, s2) \<Rightarrow>
               (case take_unit CHR ''s'' s2 of
                  Inl e \<Rightarrow> Inl e
                | Inr (seconds, _) \<Rightarrow> Inr (hours, minutes, seconds))))"

definition parse_duration :: "string \<Rightarrow> error + int" where
  "parse_duration duration_str =
     (case duration_fields duration_str of
        Inl e \<Rightarrow> Inl e
      | Inr (hours, minutes, seconds) \<Rightarrow> timedelta hours minutes seconds)"

subsection \<open>Dates and times\<close>

text \<open>The calendar arithmetic of the \<open>datetime\<close> module: leap years, the days before
  a year and before a month, and the ordinal of a date (0001-01-01 is day 1, a Monday).\<close>

definition is_leap :: "int \<Rightarrow> bool" where
  "is_leap y = (y mod 4 = 0 \<and> (y mod 100 \<noteq> 0 \<or> y mod 400 = 0))"

definition days_before_year :: "int \<Rightarrow> int" where
  "days_before_year y = (let p = y - 1 in p * 365 + p div 4 - p div 100 + p div 400)"

definition days_in_month :: "int \<Rightarrow> int \<Rightarrow> int" where
  "days_in_month y m =
     (if m = 2 \<and> is_leap y then 29
      else [31, 28, 31, 30, 31, 30, 31, 31, 30, 31, 30, 31] ! nat (m - 1))"

definition days_before_month :: "int \<Rightarrow> int \<Rightarrow> int" where
  "days_before_month y m =
     [0, 31, 59, 90, 120, 151, 181, 212, 243, 273, 304, 334] ! nat (m - 1)
       + (if 2 < m \<and> is_leap y then 1 else 0)"

definition ymd2ord :: "int \<Rightarrow> int \<Rightarrow> int \<Rightarrow> int" where
  "ymd2ord y m d = days_before_year y + days_before_month y m + d"

type_synonym datetime = int

text \<open>The datetime at a time of day on the date with a given ordinal.\<close>

definition at_time :: "int \<Rightarrow> int \<Rightarrow> int \<Rightarrow> int \<Rightarrow> datetime" where
  "at_time ord H M S = (ord - 1) * 86400 + H * 3600 + M * 60 + S"

text \<open>The constructor \<open>datetime(y, m, d, H, M, S)\<close> with its range checks.\<close>

definition new_datetime :: "int \<Rightarrow> int \<Rightarrow> int \<Rightarrow> int \<Rightarrow> int \<Rightarrow> int \<Rightarrow> error + datetime" where
  "new_datetime y m d H M S =
     (if 1 \<le> y \<and> y \<le> 9999 \<and> 1 \<le> m \<and> m \<le> 12 \<and> 1 \<le> d \<and> d \<le> days_in_month y m
         \<and> 0 \<le> H \<and> H \<le> 23 \<and> 0 \<le> M \<and> M \<le> 59 \<and> 0 \<le> S \<and> S \<le> 59
      then Inr (at_time (ymd2ord y m d) H M S)
      else Inl ValueError)"

definition toordinal :: "datetime \<Rightarrow> int" where
  "toordinal t = t div 86400 + 1"

definition weekday :: "datetime \<Rightarrow> nat" where
  "weekday t = nat ((toordinal t + 6) mod 7)"

definition hour :: "datetime \<Rightarrow> int" where
  "hour t = (t mod 86400) div 3600"

definition minute :: "datetime \<Rightarrow> int" where
  "minute t = (t mod 3600) div 60"

text \<open>\<open>datetime(t.year, t.month, t.day, 23, 59, 59)\<close>: the constructor is given the
  year, month and day of \<open>t\<close> itself, so the date is the one of \<open>t\<close> and no range
  check fails.\<close>

definition end_of_day :: "datetime \<Rightarrow> datetime" where
  "end_of_day t = at_time (toordinal t) 23 59 59"

subsection \<open>\<open>strptime\<close> with the format \<open>%y-%m-%d %H:%M:%S\<close>\<close>

text \<open>The library turns the format into a regular expression whose directives are
  alternations of fixed-length character-class sequences.  A class is written as the
  string of its characters, an alternative as a list of classes.  The first alternative
  that matches is taken: every two-character alternative ends in a digit (or is the
  space-padded day), and every directive but the last is followed by a non-digit, so
  backtracking into a later alternative can never succeed.\<close>

fun match_classes :: "string list \<Rightarrow> string \<Rightarrow> (string \<times> string) option" where
  "match_classes [] s = Some ([], s)"
| "match_classes (cl # cls) [] = None"
| "match_classes (cl # cls) (c # s) =
     (if c \<in> set cl then map_option (\<lambda>(m, r). (c # m, r)) (match_classes cls s) else None)"

fun match_alts :: "string list list \<Rightarrow> string \<Rightarrow> (string \<times> string) option" where
  "match_alts [] s = None"
| "match_alts (a # alts) s =
     (case match_classes a s of Some r \<Rightarrow> Some r | None \<Rightarrow> match_alts alts s)"

definition digit :: string where "digit = ''0123456789''"
definition digit19 :: string where "digit19 = ''123456789''"

definition re_y :: "string list list" where "re_y = [[digit, digit]]"
definition re_m :: "string list list" where
  "re_m = [[''1'', ''012''], [''0'', digit19], [digit19]]"
definition re_d :: "string list list" where
  "re_d = [[''3'', ''01''], [''12'', digit], [''0'', digit19], [digit19], ['' '', digit19]]"
definition re_H :: "string list list" where
  "re_H = [[''2'', ''0123''], [''01'', digit], [digit]]"
definition re_M :: "string list list" where
  "re_M = [[''012345'', digit], [digit]]"
definition re_S :: "string list list" where
  "re_S = [[''6'', ''01''], [''012345'', digit], [digit]]"

text \<open>A directive: the matched text converted by \<open>int\<close> (the space of a padded day
  is ignored by \<open>int\<close>), and the text that follows.\<close>

definition directive :: "string list list \<Rightarrow> string \<Rightarrow> (int \<times> string) option" where
  "directive alts s =
     map_option (\<lambda>(m, r). (digits_value (filter is_digit m), r)) (match_alts alts s)"

definition literal :: "char \<Rightarrow> string \<Rightarrow> string option" where
  "literal c s = (case s of x # r \<Rightarrow> if x = c then Some r else None | [] \<Rightarrow> None)"

text \<open>The blank of the format stands for one or more whitespace characters.\<close>

definition spaces1 :: "string \<Rightarrow> string option" where
  "spaces1 s = (case s of x # r \<Rightarrow> if is_space x then Some (dropWhile is_space r) else None
                | [] \<Rightarrow> None)"

definition match_format :: "string \<Rightarrow> (int \<times> int \<times> int \<times> int \<times> int \<times> int) option" where
  "match_format s0 = do {
     (y, s1) \<leftarrow> directive re_y s0;
     s2 \<leftarrow> literal CHR ''-'' s1;
     (m, s3) \<leftarrow> directive re_m s2;
     s4 \<leftarrow> literal CHR ''-'' s3;
     (d, s5) \<leftarrow> directive re_d s4;
     s6 \<leftarrow> spaces1 s5;
     (H, s7) \<leftarrow> directive re_H s6;
     s8 \<leftarrow> literal CHR '':'' s7;
     (M, s9) \<leftarrow> directive re_M s8;
     s10 \<leftarrow> literal CHR '':'' s9;
     (S, s11) \<leftarrow> directive re_S s10;
     if s11 = [] then Some (y, m, d, H, M, S) else None
   }"

text \<open>A text that does not match, or that has unconverted text left, raises
  \<open>ValueError\<close>; so does a day or a second that the \<open>datetime\<close> constructor
  refuses.  A two-digit year up to 68 is in 2000..2068, a later one in 1969..1999.\<close>

definition strptime :: "string \<Rightarrow> error + datetime" where
  "strptime s =
     (case match_format s of
        None \<Rightarrow> Inl ValueError
      | Some (y, m, d, H, M, S) \<Rightarrow>
          new_datetime (if y \<le> 68 then y + 2000 else y + 1900) m d H M S)"

subsection \<open>The session loader\<close>

record session =
  Date :: int
  Start_Time :: datetime
  End_Time :: datetime
  Duration :: int

text \<open>\<open>parts = line.strip().split(",")\<close>.\<close>

definition parts_of :: "string \<Rightarrow> string list" where
  "parts_of line = split_on CHR '','' (strip line)"

text \<open>The condition of the \<open>if\<close> in the loading loop.\<close>

definition accepted :: "string \<Rightarrow> bool" where
  "accepted line =
     (let parts = parts_of line in length parts = 4 \<and> parts ! 1 \<noteq> [] \<and> parts ! 2 \<noteq> [])"

text \<open>The body of the loading loop: \<open>Inr None\<close> when the line is passed over,
  \<open>Inr (Some r)\<close> when the record \<open>r\<close> is appended, \<open>Inl e\<close> when a conversion
  raises.\<close>

definition parse_line :: "string \<Rightarrow> error + session option" where
  "parse_line line =
     (let parts = parts_of line in
      if length parts = 4 \<and> parts ! 1 \<noteq> [] \<and> parts ! 2 \<noteq> [] then
        (case strptime (parts ! 1) of
           Inl e \<Rightarrow> Inl e
         | Inr start_time \<Rightarrow>
             (case strptime (parts ! 2) of
                Inl e \<Rightarrow> Inl e
              | Inr end_time \<Rightarrow>
                  (case parse_duration (parts ! 3) of
                     Inl e \<Rightarrow> Inl e
                   | Inr duration \<Rightarrow>
                       Inr (Some \<lparr>Date = toordinal start_time, Start_Time = start_time,
                                  End_Time = end_time, Duration = duration\<rparr>))))
      else Inr None)"

text \<open>The loop \<open>for line in data\<close>, with the list \<open>records\<close> built so far.\<close>

fun load_records :: "session list \<Rightarrow> string list \<Rightarrow> error + session list" where
  "load_records records [] = Inr records"
| "load_records records (line # data) =
     (case parse_line line of
        Inl e \<Rightarrow> Inl e
      | Inr None \<Rightarrow> load_records records data
      | Inr (Some r) \<Rightarrow> load_records (records @ [r]) data)"

subsection \<open>The daily series\<close>

text \<open>A pandas series is the list of its (index, value) pairs.  \<open>col_min\<close> and
  \<open>col_max\<close> are \<open>min()\<close> and \<open>max()\<close> of a non-empty column.\<close>

definition col_min :: "int list \<Rightarrow> int" where
  "col_min xs = fold min (tl xs) (hd xs)"

definition col_max :: "int list \<Rightarrow> int" where
  "col_max xs = fold max (tl xs) (hd xs)"

text \<open>\<open>pd.date_range(start, end)\<close>: one entry per day, both ends included.\<close>

definition date_range :: "int \<Rightarrow> int \<Rightarrow> int list" where
  "date_range a b = [a..b]"

text \<open>
  \<open>pd.DataFrame(records)\<close> stores the \<open>Duration\<close> column as
  \<open>timedelta64[ns]\<close>, a signed 64-bit count of nanoseconds, when every duration can
  be stored so; the least 64-bit value is kept for "not a time", so the range is
  symmetric.  When some duration cannot be stored so, the column keeps the Python
  \<open>timedelta\<close> objects.
\<close>

definition to_ns :: "int \<Rightarrow> int" where
  "to_ns seconds = seconds * 1000000000"

definition td64_max :: int where
  "td64_max = 9223372036854775807"

definition in_td64 :: "int \<Rightarrow> bool" where
  "in_td64 ns = (- td64_max \<le> ns \<and> ns \<le> td64_max)"

definition is_td64_column :: "session list \<Rightarrow> bool" where
  "is_td64_column df = list_all (\<lambda>r. in_td64 (to_ns (Duration r))) df"

text \<open>The 64-bit value that is read as "not a time".\<close>

definition not_a_time :: int where
  "not_a_time = - td64_max - 1"

text \<open>The value of a 64-bit signed sum: the integer modulo \<open>2^64\<close>, from \<open>-2^63\<close> to
  \<open>2^63 - 1\<close>.\<close>

definition wrap64 :: "int \<Rightarrow> int" where
  "wrap64 x = (x + 9223372036854775808) mod 18446744073709551616 - 9223372036854775808"

text \<open>The sum of two \<open>timedelta\<close> objects, both in nanoseconds: it raises
  \<open>OverflowError\<close> when its day count leaves \<open>\<plusminus>999999999\<close>.\<close>

definition timedelta_add :: "int \<Rightarrow> int \<Rightarrow> error + int" where
  "timedelta_add a b =
     (let total = a + b; days = total div 86400000000000
      in if days < - 999999999 \<or> 999999999 < days then Inl OverflowError else Inr total)"

text \<open>\<open>df.groupby("Date")["Duration"].sum()\<close>: the rows are taken in order, and each
  adds its duration to the entry of its date, which starts as the first duration of
  that date.  The values are nanoseconds.  On a \<open>timedelta64[ns]\<close> column the addition
  is the 64-bit one, which wraps around; on a column of objects it is the addition of
  \<open>timedelta\<close>.  (A 64-bit sum that wraps to exactly \<open>-2^63\<close>, which takes a total of
  at least \<open>2^54\<close> seconds on one day, reads as "not a time" and becomes NaN hours;
  that single value is not told apart here.)\<close>

definition add_to_group :: "bool \<Rightarrow> session \<Rightarrow> (int \<rightharpoonup> int) \<Rightarrow> error + (int \<rightharpoonup> int)" where
  "add_to_group td64 r g =
     (let val = to_ns (Duration r)
      in case g (Date r) of
           None \<Rightarrow> Inr (g(Date r \<mapsto> val))
         | Some sumx \<Rightarrow>
             if td64 then Inr (g(Date r \<mapsto> wrap64 (sumx + val)))
             else (case timedelta_add sumx val of
                     Inl e \<Rightarrow> Inl e
                   | Inr t \<Rightarrow> Inr (g(Date r \<mapsto> t))))"

fun group_sum :: "bool \<Rightarrow> session list \<Rightarrow> (int \<rightharpoonup> int) \<Rightarrow> error + (int \<rightharpoonup> int)" where
  "group_sum td64 [] g = Inr g"
| "group_sum td64 (r # rows) g =
     (case add_to_group td64 r g of
        Inl e \<Rightarrow> Inl e
      | Inr g' \<Rightarrow> group_sum td64 rows g')"

definition groupby_sum :: "session list \<Rightarrow> error + (int \<rightharpoonup> int)" where
  "groupby_sum df = group_sum (is_td64_column df) df Map.empty"

text \<open>\<open>series.reindex(index, fill_value=v)\<close>.\<close>

definition reindex :: "(int \<rightharpoonup> int) \<Rightarrow> int list \<Rightarrow> int \<Rightarrow> (int \<times> int) list" where
  "reindex g idx fill_value = map (\<lambda>d. (d, case g d of None \<Rightarrow> fill_value | Some v \<Rightarrow> v)) idx"

text \<open>The body of \<open>if not df.empty\<close>; the values of the series are nanoseconds.\<close>

definition fill_missing_dates :: "session list \<Rightarrow> error + (int \<times> int) list" where
  "fill_missing_dates df =
     (let all_dates = date_range (col_min (map Date df)) (col_max (map Date df))
      in case groupby_sum df of
           Inl e \<Rightarrow> Inl e
         | Inr study_per_day \<Rightarrow> Inr (reindex study_per_day all_dates 0))"

text \<open>\<open>study_per_day.apply(lambda x: x.total_seconds() / 3600)\<close>.\<close>

definition to_hours :: "(int \<times> int) list \<Rightarrow> (int \<times> rat) list" where
  "to_hours study_per_day =
     map (\<lambda>(d, ns). (d, of_int ns / 1000000000 / 3600)) study_per_day"

subsection \<open>Rolling means\<close>

text \<open>
  \<open>series.rolling(window=W).mean()\<close> with the defaults: the window of position \<open>i\<close>
  is \<open>[max(0, i - W + 1), i + 1)\<close>, at least \<open>W\<close> observations are required, and
  the mean is kept as a running sum to which the entering values are added and from
  which the leaving ones are removed.  The state is the number of observations and
  their sum.  (The compensation terms of the float summation are zero in exact
  arithmetic and are left out.)
\<close>

definition add_mean :: "rat \<Rightarrow> nat \<times> rat \<Rightarrow> nat \<times> rat" where
  "add_mean v st = (fst st + 1, snd st + v)"

definition remove_mean :: "rat \<Rightarrow> nat \<times> rat \<Rightarrow> nat \<times> rat" where
  "remove_mean v st = (fst st - 1, snd st - v)"

definition calc_mean :: "nat \<Rightarrow> nat \<times> rat \<Rightarrow> rat option" where
  "calc_mean minp st =
     (if minp \<le> fst st \<and> 0 < fst st then Some (snd st / of_nat (fst st)) else None)"

definition window_start :: "nat \<Rightarrow> nat \<Rightarrow> nat" where
  "window_start W i = (i + 1) - W"

function roll_mean :: "nat \<Rightarrow> rat list \<Rightarrow> nat \<Rightarrow> nat \<times> rat \<Rightarrow> rat option list" where
  "roll_mean W vals i st =
     (if i < length vals then
        (let s = window_start W i;
             e = i + 1;
             st' = (if i = 0 \<or> i \<le> s
                    then fold add_mean (map ((!) vals) [s..<e]) (0, 0)
                    else fold add_mean (map ((!) vals) [i..<e])
                           (fold remove_mean (map ((!) vals) [window_start W (i - 1)..<s]) st))
         in calc_mean W st' # roll_mean W vals (i + 1) st')
      else [])"
  by pat_completeness auto
termination
  by (relation "measure (\<lambda>(W, vals, i, st). length vals - i)") auto

declare roll_mean.simps [simp del]

definition rolling_mean :: "nat \<Rightarrow> (int \<times> rat) list \<Rightarrow> (int \<times> rat option) list" where
  "rolling_mean W series = zip (map fst series) (roll_mean W (map snd series) 0 (0, 0))"

subsection \<open>The time-of-day density\<close>

text \<open>The clock reading of \<open>datetime.now()\<close>, by its fields.\<close>

record clock =
  c_year :: int
  c_month :: int
  c_day :: int
  c_hour :: int
  c_minute :: int
  c_second :: int
  c_microsecond :: int

definition x_months :: int where
  "x_months = 4"

text \<open>\<open>today - pd.DateOffset(months=n)\<close> for \<open>n\<close> from 0 to 11: the month moves back,
  into the year before when it passes January, and the day of the month is cut down to
  the length of the month reached.\<close>

definition minus_months :: "clock \<Rightarrow> int \<Rightarrow> clock" where
  "minus_months today n =
     (let m0 = c_month today - n;
          y = (if m0 < 1 then c_year today - 1 else c_year today);
          m = (if m0 < 1 then m0 + 12 else m0);
          d = min (days_in_month y m) (c_day today)
      in today\<lparr>c_year := y, c_month := m, c_day := d\<rparr>)"

text \<open>\<open>start >= cutoff\<close>, where \<open>start\<close> has no fraction of a second and the
  cutoff may have one: both sides in microseconds.\<close>

definition at_or_after :: "datetime \<Rightarrow> clock \<Rightarrow> bool" where
  "at_or_after start cutoff =
     (at_time (ymd2ord (c_year cutoff) (c_month cutoff) (c_day cutoff))
              (c_hour cutoff) (c_minute cutoff) (c_second cutoff) * 1000000
        + c_microsecond cutoff \<le> start * 1000000)"

type_synonym matrix = "rat list list"

text \<open>\<open>pd.DataFrame(0, index=range(7), columns=range(bins), dtype=float)\<close>.\<close>

definition bins :: nat where
  "bins = 48"

definition zero_heat :: matrix where
  "zero_heat = replicate 7 (replicate bins 0)"

text \<open>\<open>heat.at[weekday, bin_idx] += 1\<close>.\<close>

definition bump :: "matrix \<Rightarrow> nat \<Rightarrow> nat \<Rightarrow> matrix" where
  "bump heat w b = heat[w := (heat ! w)[b := heat ! w ! b + 1]]"

definition bin_idx :: "datetime \<Rightarrow> nat" where
  "bin_idx cursor = nat ((hour cursor * 60 + minute cursor) div 30)"

text \<open>The inner loop \<open>while cursor <= seg_end\<close>.\<close>

function walk_minutes :: "matrix \<Rightarrow> datetime \<Rightarrow> datetime \<Rightarrow> matrix" where
  "walk_minutes heat cursor seg_end =
     (if cursor \<le> seg_end
      then walk_minutes (bump heat (weekday cursor) (bin_idx cursor)) (cursor + 60) seg_end
      else heat)"
  by pat_completeness auto
termination
  by (relation "measure (\<lambda>(heat, cursor, seg_end). nat (seg_end + 1 - cursor))") auto

declare walk_minutes.simps [simp del]

text \<open>The outer loop \<open>while start_time < end_time\<close>.\<close>

function walk_session :: "matrix \<Rightarrow> datetime \<Rightarrow> datetime \<Rightarrow> matrix" where
  "walk_session heat start_time end_time =
     (if start_time < end_time then
        (let day_end = end_of_day start_time;
             seg_end = min end_time day_end
         in walk_session (walk_minutes heat start_time seg_end) (seg_end + 1) end_time)
      else heat)"
  by pat_completeness auto
termination
proof (relation "measure (\<lambda>(heat, start_time, end_time). nat (end_time - start_time))")
  show "wf (measure (\<lambda>(heat, start_time, end_time). nat (end_time - start_time)))"
    by simp
next
  fix heat :: matrix and start_time end_time day_end seg_end :: int
  assume lt: "start_time < end_time"
    and de: "day_end = end_of_day start_time"
    and se: "seg_end = min end_time day_end"
  have "start_time \<le> day_end"
    unfolding de end_of_day_def at_time_def toordinal_def by simp
  with lt se have "start_time \<le> seg_end" by simp
  with lt show "((walk_minutes heat start_time seg_end, seg_end + 1, end_time),
                 (heat, start_time, end_time))
                \<in> measure (\<lambda>(heat, start_time, end_time). nat (end_time - start_time))"
    by simp
qed

declare walk_session.simps [simp del]

text \<open>The loop \<open>for _, row in df_recent.iterrows()\<close>.\<close>

fun accumulate :: "matrix \<Rightarrow> session list \<Rightarrow> matrix" where
  "accumulate heat [] = heat"
| "accumulate heat (row # rows) =
     accumulate (walk_session heat (Start_Time row) (End_Time row)) rows"

definition scale :: "(rat \<Rightarrow> rat) \<Rightarrow> matrix \<Rightarrow> matrix" where
  "scale f heat = map (map f) heat"

text \<open>\<open>(max - min).days / 7\<close> over the start times of the recent rows.  On an empty
  column both extremes are \<open>NaT\<close> and the quotient is NaN.\<close>

definition weeks_of :: "session list \<Rightarrow> rat option" where
  "weeks_of df_recent =
     (if df_recent = [] then None
      else Some (of_int ((col_max (map Start_Time df_recent)
                          - col_min (map Start_Time df_recent)) div 86400) / 7))"

text \<open>\<open>if weeks > 0: heat = heat / weeks\<close>; a comparison with NaN is false.\<close>

definition per_week :: "rat option \<Rightarrow> matrix \<Rightarrow> matrix" where
  "per_week weeks heat =
     (case weeks of
        None \<Rightarrow> heat
      | Some w \<Rightarrow> if 0 < w then scale (\<lambda>x. x / w) heat else heat)"

text \<open>The rows kept by \<open>df[df["Start Time"] >= x_months_ago]\<close>.\<close>

definition recent :: "session list \<Rightarrow> clock \<Rightarrow> session list" where
  "recent df today = filter (\<lambda>r. at_or_after (Start_Time r) (minus_months today x_months)) df"

text \<open>The matrix before the conversions that follow the loop.\<close>

definition minute_counts :: "session list \<Rightarrow> clock \<Rightarrow> matrix" where
  "minute_counts df today = accumulate zero_heat (recent df today)"

text \<open>Lines 96 to 133.  A frame built from no record has no column, so selecting
  \<open>"Start Time"\<close> raises \<open>KeyError\<close>.\<close>

definition density :: "session list \<Rightarrow> clock \<Rightarrow> error + matrix" where
  "density df today =
     (if df = [] then Inl KeyError
      else
        (let df_recent = recent df today;
             heat = accumulate zero_heat df_recent;
             heat = scale (\<lambda>x. x / 60) heat;
             weeks = weeks_of df_recent;
             heat = per_week weeks heat
         in Inr (scale (\<lambda>x. x * 60) heat)))"

subsection \<open>The whole analysis\<close>

text \<open>What \<open>analyze_study_data\<close> hands to the plots: the daily hours, the two moving
  averages and the density matrix.  (The weekday by month table is derived from the
  daily hours by a pandas pivot and is not part of this model.)\<close>

record analysis =
  study_per_day_hours :: "(int \<times> rat) list"
  moving_avg_7d :: "(int \<times> rat option) list"
  moving_avg_30d :: "(int \<times> rat option) list"
  heat_out :: matrix

text \<open>\<open>study_per_day\<close> is bound only when the frame is not empty; line 51 reads it
  in any case, and reading an unbound local raises \<open>UnboundLocalError\<close>.  An error
  of the daily sum leaves the function before that.\<close>

definition analyze_study_data :: "string list \<Rightarrow> clock \<Rightarrow> error + analysis" where
  "analyze_study_data data today =
     (case load_records [] data of
        Inl e \<Rightarrow> Inl e
      | Inr df \<Rightarrow>
          (case (if df \<noteq> [] then map_sum id Some (fill_missing_dates df) else Inr None) of
             Inl e \<Rightarrow> Inl e
           | Inr study_per_day \<Rightarrow>
               (case study_per_day of
                  None \<Rightarrow> Inl UnboundLocalError
                | Some spd \<Rightarrow>
                    (let hours = to_hours spd;
                         avg7 = rolling_mean 7 hours;
                         avg30 = rolling_mean 30 hours
                     in case density df today of
                          Inl e \<Rightarrow> Inl e
                        | Inr heat \<Rightarrow>
                            Inr \<lparr>study_per_day_hours = hours, moving_avg_7d = avg7,
                                 moving_avg_30d = avg30, heat_out = heat\<rparr>))))"

subsection \<open>Notions used by the properties\<close>

text \<open>The sum of the durations of the sessions that start on day \<open>d\<close>.\<close>

definition day_total :: "session list \<Rightarrow> int \<Rightarrow> int" where
  "day_total df d = sum_list (map Duration (filter (\<lambda>r. Date r = d) df))"

text \<open>A small log: a session across the midnight from Monday 2024-01-01 to Tuesday, a
  line that is not a session, and an hour on Wednesday; and a clock reading in
  March 2024.\<close>

definition example_log :: "string list" where
  "example_log =
     [''1,24-01-01 23:45:00,24-01-02 00:15:00,30m'',
      ''no session here'',
      ''2,24-01-03 10:00:00,24-01-03 11:00:00,1h'']"

definition example_sessions :: "session list" where
  "example_sessions =
     [\<lparr>Date = 738886, Start_Time = 63839749500, End_Time = 63839751300, Duration = 1800\<rparr>,
      \<lparr>Date = 738888, Start_Time = 63839872800, End_Time = 63839876400, Duration = 3600\<rparr>]"

definition example_now :: clock where
  "example_now =
     \<lparr>c_year = 2024, c_month = 3, c_day = 31, c_hour = 12, c_minute = 0, c_second = 0,
      c_microsecond = 250\<rparr>"

text \<open>Two sessions on Monday 2024-01-01 of 2000000 hours each by their duration field:
  each fits the 64-bit nanosecond storage, their sum does not.\<close>

definition long_log :: "string list" where
  "long_log =
     [''1,24-01-01 08:00:00,24-01-01 09:00:00,2000000h'',
      ''2,24-01-01 10:00:00,24-01-01 11:00:00,2000000h'']"

definition long_sessions :: "session list" where
  "long_sessions =
     [\<lparr>Date = 738886, Start_Time = 63839692800, End_Time = 63839696400,
       Duration = 7200000000\<rparr>,
      \<lparr>Date = 738886, Start_Time = 63839700000, End_Time = 63839703600,
       Duration = 7200000000\<rparr>]"



text \<open>The arithmetic mean of the \<open>W\<close> values that end at position \<open>i\<close>.\<close>

definition window_mean :: "nat \<Rightarrow> rat list \<Rightarrow> nat \<Rightarrow> rat" where
  "window_mean W vals i = sum_list (take W (drop (i + 1 - W) vals)) / of_nat W"

text \<open>The number of positions without a value at the head of a smoothed series.\<close>

definition leading_missing :: "(int \<times> rat option) list \<Rightarrow> nat" where
  "leading_missing sm = length (takeWhile (\<lambda>p. snd p = None) sm)"

text \<open>The sum of the values at the positions from \<open>a\<close> up to, not including, \<open>b\<close>.\<close>

definition range_sum :: "rat list \<Rightarrow> nat \<Rightarrow> nat \<Rightarrow> rat" where
  "range_sum vals a b = sum_list (map ((!) vals) [a..<b])"

text \<open>The state of the running sum after the step for position \<open>i\<close>.\<close>
definition window_state :: "nat \<Rightarrow> rat list \<Rightarrow> nat \<Rightarrow> nat \<times> rat" where
  "window_state W vals i = (i + 1 - window_start W i, range_sum vals (window_start W i) (i + 1))"

text \<open>One execution of the body of the inner loop at the cursor \<open>c\<close>.\<close>

definition visit :: "matrix \<Rightarrow> datetime \<Rightarrow> matrix" where
  "visit heat c = bump heat (weekday c) (bin_idx c)"

text \<open>The cursor values at which the inner loop runs its body, in order: the values
  the two loops go through, without the matrix.\<close>

function minute_cursors :: "datetime \<Rightarrow> datetime \<Rightarrow> datetime list" where
  "minute_cursors cursor seg_end =
     (if cursor \<le> seg_end then cursor # minute_cursors (cursor + 60) seg_end else [])"
  by pat_completeness auto
termination
  by (relation "measure (\<lambda>(cursor, seg_end). nat (seg_end + 1 - cursor))") auto

declare minute_cursors.simps [simp del]

function session_cursors :: "datetime \<Rightarrow> datetime \<Rightarrow> datetime list" where
  "session_cursors start_time end_time =
     (if start_time < end_time then
        (let day_end = end_of_day start_time;
             seg_end = min end_time day_end
         in minute_cursors start_time seg_end @ session_cursors (seg_end + 1) end_time)
      else [])"
  by pat_completeness auto
termination
proof (relation "measure (\<lambda>(start_time, end_time). nat (end_time - start_time))")
  show "wf (measure (\<lambda>(start_time, end_time). nat (end_time - start_time)))"
    by simp
next
  fix start_time end_time day_end seg_end :: int
  assume lt: "start_time < end_time"
    and de: "day_end = end_of_day start_time"
    and se: "seg_end = min end_time day_end"
  have "start_time \<le> day_end"
    unfolding de end_of_day_def at_time_def toordinal_def by simp
  with lt se have "start_time \<le> seg_end" by simp
  with lt show "((seg_end + 1, end_time), (start_time, end_time))
                \<in> measure (\<lambda>(start_time, end_time). nat (end_time - start_time))"
    by simp
qed

declare session_cursors.simps [simp del]

text \<open>The sum of all cells of a matrix, and the shape of the density matrix.\<close>

definition total_minutes :: "matrix \<Rightarrow> rat" where
  "total_minutes heat = sum_list (map sum_list heat)"

definition wf_heat :: "matrix \<Rightarrow> bool" where
  "wf_heat heat = (length heat = 7 \<and> list_all (\<lambda>row. length row = bins) heat)"

text \<open>The number of cursors among \<open>cs\<close> that fall into the cell of weekday \<open>w\<close> and
  bin \<open>b\<close>.\<close>

definition hits :: "nat \<Rightarrow> nat \<Rightarrow> datetime list \<Rightarrow> nat" where
  "hits w b cs = length (filter (\<lambda>c. weekday c = w \<and> bin_idx c = b) cs)"

text \<open>The inclusive minute count of the specification, \<open>floor((end - start) in
  minutes) + 1\<close>, for one session and summed over a list of sessions.\<close>

definition inclusive_minutes :: "session \<Rightarrow> int" where
  "inclusive_minutes r = (End_Time r - Start_Time r) div 60 + 1"

definition claimed_total :: "session list \<Rightarrow> int" where
  "claimed_total rows = sum_list (map inclusive_minutes rows)"

text \<open>The number of minutes the walk visits for a session from \<open>s\<close> to \<open>e\<close>: none
  when \<open>e\<close> is not after \<open>s\<close>; otherwise the inclusive minute count from \<open>s\<close> to the
  earlier of \<open>e\<close> and 23:59:59 of the day of \<open>s\<close>, and, when \<open>e\<close> is past the
  following 00:00:00, the whole minutes from that 00:00:00 up to \<open>e\<close>, of which \<open>e\<close>
  itself does not count when it is a 00:00:00.\<close>

definition session_minutes :: "datetime \<Rightarrow> datetime \<Rightarrow> int" where
  "session_minutes s e =
     (if s < e then
        (min e (end_of_day s) - s) div 60 + 1
        + (if end_of_day s + 1 < e
           then (e - (end_of_day s + 1)) div 60 + 1 - (if e mod 86400 = 0 then 1 else 0)
           else 0)
      else 0)"

definition visited_total :: "session list \<Rightarrow> int" where
  "visited_total rows = sum_list (map (\<lambda>r. session_minutes (Start_Time r) (End_Time r)) rows)"



section \<open>Properties\<close>

subsection \<open>Splitting\<close>

lemma split_on_nonempty: "split_on c s \<noteq> []"
  by (induction s) (auto simp: Let_def)

lemma split_on_length: "length (split_on c s) = Suc (length (filter (\<lambda>x. x = c) s))"
  by (induction s) (auto simp: Let_def split_on_nonempty)

lemma split_on_parts_subset: "p \<in> set (split_on c s) \<Longrightarrow> set p \<subseteq> set s"
proof (induction s arbitrary: p)
  case Nil
  then show ?case by simp
next
  case (Cons x xs)
  have ne: "split_on c xs \<noteq> []" by (rule split_on_nonempty)
  show ?case
  proof (cases "x = c")
    case True
    with Cons show ?thesis by (auto simp: Let_def)
  next
    case False
    with Cons.prems have "p = x # hd (split_on c xs) \<or> p \<in> set (tl (split_on c xs))"
      by (simp add: Let_def)
    then show ?thesis
    proof
      assume "p = x # hd (split_on c xs)"
      moreover have "set (hd (split_on c xs)) \<subseteq> set xs"
        using Cons.IH [of "hd (split_on c xs)"] ne by simp
      ultimately show ?thesis by auto
    next
      assume "p \<in> set (tl (split_on c xs))"
      then have "p \<in> set (split_on c xs)" using ne by (auto dest: list.set_sel(2))
      then show ?thesis using Cons.IH by auto
    qed
  qed
qed

subsection \<open>The duration parser\<close>

lemma take_unit_absent: "c \<notin> set s \<Longrightarrow> take_unit c s = Inr (0, s)"
  by (simp add: take_unit_def)

lemma take_unit_rest_subset:
  assumes "take_unit c s = Inr (v, r)"
  shows "set r \<subseteq> set s"
proof (cases "c \<in> set s")
  case False
  with assms show ?thesis by (simp add: take_unit_def)
next
  case True
  then have "filter (\<lambda>x. x = c) s \<noteq> []" by (simp add: filter_empty_conv)
  then have "1 < length (split_on c s)"
    by (cases "filter (\<lambda>x. x = c) s") (simp_all add: split_on_length)
  then have "split_on c s ! 1 \<in> set (split_on c s)" by simp
  then have "set (split_on c s ! 1) \<subseteq> set s" by (rule split_on_parts_subset)
  moreover from assms True have "r = split_on c s ! 1"
    by (auto simp: take_unit_def split: sum.splits)
  ultimately show ?thesis by simp
qed

lemmas duration_eval =
  parse_duration_def duration_fields_def take_unit_def py_int_def is_int_space_def
  strip_def is_space_def is_digit_def digit_val_def digits_value_def max_str_digits_def timedelta_def Let_def

text \<open>
  Claim C8.  The duration parser maps \<open>1h 23m 40s\<close> to 5020 seconds, \<open>45m\<close> to 2700
  seconds and \<open>30s\<close> to 30 seconds.  For every token that is parsed, the result is the
  \<open>timedelta\<close> of the three unit values, and a unit whose marker \<open>h\<close>, \<open>m\<close> or \<open>s\<close>
  does not occur in the token has the value zero.
\<close>

theorem parse_duration_units:
  "parse_duration ''1h 23m 40s'' = Inr 5020 \<and>
   parse_duration ''45m'' = Inr 2700 \<and>
   parse_duration ''30s'' = Inr 30 \<and>
   (duration_fields tok = Inr (h, m, s) \<longrightarrow>
      parse_duration tok = timedelta h m s \<and>
      (CHR ''h'' \<notin> set tok \<longrightarrow> h = 0) \<and>
      (CHR ''m'' \<notin> set tok \<longrightarrow> m = 0) \<and>
      (CHR ''s'' \<notin> set tok \<longrightarrow> s = 0))"
proof -
  have e1: "parse_duration ''1h 23m 40s'' = Inr 5020" by (simp add: duration_eval)
  have e2: "parse_duration ''45m'' = Inr 2700" by (simp add: duration_eval)
  have e3: "parse_duration ''30s'' = Inr 30" by (simp add: duration_eval)
  have gen: "parse_duration tok = timedelta h m s \<and>
      (CHR ''h'' \<notin> set tok \<longrightarrow> h = 0) \<and>
      (CHR ''m'' \<notin> set tok \<longrightarrow> m = 0) \<and>
      (CHR ''s'' \<notin> set tok \<longrightarrow> s = 0)" if ok: "duration_fields tok = Inr (h, m, s)"
  proof -
    from ok obtain s1 s2 s3 where
      th: "take_unit CHR ''h'' tok = Inr (h, s1)" and
      tm: "take_unit CHR ''m'' s1 = Inr (m, s2)" and
      ts: "take_unit CHR ''s'' s2 = Inr (s, s3)"
      by (auto simp: duration_fields_def split: sum.splits)
    have sub1: "set s1 \<subseteq> set tok" using th by (rule take_unit_rest_subset)
    have sub2: "set s2 \<subseteq> set s1" using tm by (rule take_unit_rest_subset)
    have "h = 0" if "CHR ''h'' \<notin> set tok"
      using th take_unit_absent [OF that] by simp
    moreover have "m = 0" if "CHR ''m'' \<notin> set tok"
    proof -
      from that sub1 have "CHR ''m'' \<notin> set s1" by blast
      then show ?thesis using tm take_unit_absent [of "CHR ''m''" s1] by simp
    qed
    moreover have "s = 0" if "CHR ''s'' \<notin> set tok"
    proof -
      from that sub1 sub2 have "CHR ''s'' \<notin> set s2" by blast
      then show ?thesis using ts take_unit_absent [of "CHR ''s''" s2] by simp
    qed
    moreover have "parse_duration tok = timedelta h m s"
      using ok by (simp add: parse_duration_def)
    ultimately show ?thesis by blast
  qed
  from e1 e2 e3 gen show ?thesis by blast
qed

theorem parse_duration_units_witness:
  "duration_fields ''45m'' = Inr (0, 45, 0) \<and>
   CHR ''h'' \<notin> set ''45m'' \<and> CHR ''s'' \<notin> set ''45m'' \<and>
   parse_duration ''45m'' = timedelta 0 45 0 \<and> timedelta 0 45 0 = Inr 2700 \<and>
   duration_fields ''30s'' = Inr (0, 0, 30) \<and>
   CHR ''h'' \<notin> set ''30s'' \<and> CHR ''m'' \<notin> set ''30s'' \<and>
   parse_duration ''30s'' = timedelta 0 0 30"
proof -
  have ok: "duration_fields ''45m'' = Inr (0, 45, 0)" by (simp add: duration_eval)
  have ok2: "duration_fields ''30s'' = Inr (0, 0, 30)" by (simp add: duration_eval)
  from parse_duration_units [of "''45m''" 0 45 0] ok
  have 1: "parse_duration ''45m'' = timedelta 0 45 0" by blast
  from parse_duration_units [of "''30s''" 0 0 30] ok2
  have 2: "parse_duration ''30s'' = timedelta 0 0 30" by blast
  from ok ok2 1 2 show ?thesis by (simp add: timedelta_def)
qed

subsection \<open>The loader\<close>

lemma load_records_append:
  "load_records recs (xs @ ys) =
     (case load_records recs xs of Inl e \<Rightarrow> Inl e | Inr recs' \<Rightarrow> load_records recs' ys)"
  by (induction xs arbitrary: recs) (auto split: sum.splits option.splits)

lemma not_accepted_skipped: "\<not> accepted line \<Longrightarrow> parse_line line = Inr None"
  by (auto simp: accepted_def parse_line_def Let_def)

lemma strptime_error: "strptime s = Inl e \<Longrightarrow> e = ValueError"
  by (auto simp: strptime_def new_datetime_def split: option.splits if_splits)

lemma accepted_bad_timestamp:
  assumes "accepted line"
    and "strptime (parts_of line ! 1) = Inl e \<or> strptime (parts_of line ! 2) = Inl e"
  shows "parse_line line = Inl ValueError"
proof (cases "strptime (parts_of line ! 1)")
  case (Inl e1)
  then have "e1 = ValueError" by (rule strptime_error)
  with Inl assms(1) show ?thesis by (auto simp: accepted_def parse_line_def Let_def)
next
  case (Inr t1)
  with assms(2) have bad: "strptime (parts_of line ! 2) = Inl e" by simp
  then have "e = ValueError" by (rule strptime_error)
  with Inr bad assms(1) show ?thesis by (auto simp: accepted_def parse_line_def Let_def)
qed

lemma accepted_not_skipped: "accepted line \<Longrightarrow> parse_line line \<noteq> Inr None"
  by (auto simp: accepted_def parse_line_def Let_def split: sum.splits)

lemmas strptime_eval =
  strptime_def match_format_def directive_def literal_def spaces1_def re_y_def re_m_def
  re_d_def re_H_def re_M_def re_S_def digit_def digit19_def is_digit_def is_space_def
  digits_value_def digit_val_def new_datetime_def at_time_def ymd2ord_def
  days_before_year_def days_before_month_def days_in_month_def is_leap_def

lemmas loader_eval = accepted_def parts_of_def strip_def is_space_def Let_def

lemma accepted_parsed:
  assumes "accepted line"
    and "strptime (parts_of line ! 1) = Inr start_time"
    and "strptime (parts_of line ! 2) = Inr end_time"
  shows "parse_line line =
           (case parse_duration (parts_of line ! 3) of
              Inl e \<Rightarrow> Inl e
            | Inr duration \<Rightarrow>
                Inr (Some \<lparr>Date = toordinal start_time, Start_Time = start_time,
                           End_Time = end_time, Duration = duration\<rparr>))"
  using assms by (auto simp: accepted_def parse_line_def Let_def)

text \<open>
  Claim C7.  A line is accepted exactly when the split of the stripped line on commas has
  four fields of which the second and the third are not empty.  A line that is not
  accepted leaves the load as if it were absent.  An accepted line is never passed over:
  when its start and end texts and its duration are converted, its record, dated by
  the day of the start, is appended to the records of the lines before it and the load
  goes on with the lines after it; when its start or end text is refused by
  \<open>strptime\<close> the load ends in an error: \<open>ValueError\<close>, unless an earlier line has
  raised before; an error of the duration ends the load in the same way.  With no line
  left, the load returns the records in the order of their lines.
\<close>

theorem loader_accepts:
  "(accepted line \<longleftrightarrow>
      length (split_on CHR '','' (strip line)) = 4
      \<and> split_on CHR '','' (strip line) ! 1 \<noteq> [] \<and> split_on CHR '','' (strip line) ! 2 \<noteq> []) \<and>
   (\<not> accepted line \<longrightarrow>
      load_records recs (before @ line # after) = load_records recs (before @ after)) \<and>
   (accepted line \<longrightarrow> parse_line line \<noteq> Inr None) \<and>
   (accepted line \<and> (strptime (parts_of line ! 1) = Inl e \<or> strptime (parts_of line ! 2) = Inl e)
      \<longrightarrow> (\<exists>e'. load_records recs (before @ line # after) = Inl e') \<and>
          (\<forall>recs'. load_records recs before = Inr recs'
             \<longrightarrow> load_records recs (before @ line # after) = Inl ValueError)) \<and>
   (accepted line \<and> strptime (parts_of line ! 1) = Inr start_time
      \<and> strptime (parts_of line ! 2) = Inr end_time
      \<and> parse_duration (parts_of line ! 3) = Inr duration
      \<longrightarrow> load_records recs (before @ line # after) =
            (case load_records recs before of
               Inl e' \<Rightarrow> Inl e'
             | Inr recs' \<Rightarrow>
                 load_records
                   (recs' @ [\<lparr>Date = toordinal start_time, Start_Time = start_time,
                              End_Time = end_time, Duration = duration\<rparr>]) after)) \<and>
   (accepted line \<and> strptime (parts_of line ! 1) = Inr start_time
      \<and> strptime (parts_of line ! 2) = Inr end_time
      \<and> parse_duration (parts_of line ! 3) = Inl e
      \<longrightarrow> (\<forall>recs'. load_records recs before = Inr recs'
             \<longrightarrow> load_records recs (before @ line # after) = Inl e)) \<and>
   load_records recs [] = Inr recs"
proof (intro conjI impI)
  show "accepted line \<longleftrightarrow>
      length (split_on CHR '','' (strip line)) = 4
      \<and> split_on CHR '','' (strip line) ! 1 \<noteq> [] \<and> split_on CHR '','' (strip line) ! 2 \<noteq> []"
    by (simp add: accepted_def parts_of_def Let_def)
next
  assume "\<not> accepted line"
  then have "parse_line line = Inr None" by (rule not_accepted_skipped)
  then show "load_records recs (before @ line # after) = load_records recs (before @ after)"
    by (simp add: load_records_append split: sum.splits)
next
  assume "accepted line"
  then show "parse_line line \<noteq> Inr None" by (rule accepted_not_skipped)
next
  assume a: "accepted line \<and>
     (strptime (parts_of line ! 1) = Inl e \<or> strptime (parts_of line ! 2) = Inl e)"
  then have bad: "parse_line line = Inl ValueError"
    using accepted_bad_timestamp by blast
  then show "\<exists>e'. load_records recs (before @ line # after) = Inl e'"
    by (cases "load_records recs before") (simp_all add: load_records_append)
next
  assume a: "accepted line \<and>
     (strptime (parts_of line ! 1) = Inl e \<or> strptime (parts_of line ! 2) = Inl e)"
  then have bad: "parse_line line = Inl ValueError"
    using accepted_bad_timestamp by blast
  then show "\<forall>recs'. load_records recs before = Inr recs'
             \<longrightarrow> load_records recs (before @ line # after) = Inl ValueError"
    by (simp add: load_records_append)
next
  assume a: "accepted line \<and> strptime (parts_of line ! 1) = Inr start_time
      \<and> strptime (parts_of line ! 2) = Inr end_time
      \<and> parse_duration (parts_of line ! 3) = Inr duration"
  then have "parse_line line =
      Inr (Some \<lparr>Date = toordinal start_time, Start_Time = start_time,
                 End_Time = end_time, Duration = duration\<rparr>)"
    by (simp add: accepted_parsed)
  then show "load_records recs (before @ line # after) =
            (case load_records recs before of
               Inl e' \<Rightarrow> Inl e'
             | Inr recs' \<Rightarrow>
                 load_records
                   (recs' @ [\<lparr>Date = toordinal start_time, Start_Time = start_time,
                              End_Time = end_time, Duration = duration\<rparr>]) after)"
    by (simp add: load_records_append split: sum.splits)
next
  assume a: "accepted line \<and> strptime (parts_of line ! 1) = Inr start_time
      \<and> strptime (parts_of line ! 2) = Inr end_time
      \<and> parse_duration (parts_of line ! 3) = Inl e"
  then have "parse_line line = Inl e" by (simp add: accepted_parsed)
  then show "\<forall>recs'. load_records recs before = Inr recs'
             \<longrightarrow> load_records recs (before @ line # after) = Inl e"
    by (simp add: load_records_append)
next
  show "load_records recs [] = Inr recs" by simp
qed

theorem loader_accepts_witness:
  "\<not> accepted ''no session here'' \<and>
   load_records [] [''no session here''] = Inr [] \<and>
   accepted ''7,yesterday,24-01-02 00:15:00,30m'' \<and>
   strptime (parts_of ''7,yesterday,24-01-02 00:15:00,30m'' ! 1) = Inl ValueError \<and>
   load_records [] [''7,yesterday,24-01-02 00:15:00,30m''] = Inl ValueError \<and>
   accepted ''1,24-01-01 23:45:00,24-01-02 00:15:00,30m'' \<and>
   strptime (parts_of ''1,24-01-01 23:45:00,24-01-02 00:15:00,30m'' ! 1) = Inr 63839749500 \<and>
   strptime (parts_of ''1,24-01-01 23:45:00,24-01-02 00:15:00,30m'' ! 2) = Inr 63839751300 \<and>
   parse_duration (parts_of ''1,24-01-01 23:45:00,24-01-02 00:15:00,30m'' ! 3) = Inr 1800 \<and>
   load_records [] [''1,24-01-01 23:45:00,24-01-02 00:15:00,30m'']
     = Inr [\<lparr>Date = 738886, Start_Time = 63839749500, End_Time = 63839751300,
             Duration = 1800\<rparr>] \<and>
   accepted ''2,24-01-03 10:00:00,24-01-03 11:00:00,1.5h'' \<and>
   parse_duration (parts_of ''2,24-01-03 10:00:00,24-01-03 11:00:00,1.5h'' ! 3)
     = Inl ValueError \<and>
   load_records [] [''2,24-01-03 10:00:00,24-01-03 11:00:00,1.5h''] = Inl ValueError"
proof -
  have n: "\<not> accepted ''no session here''" by (simp add: loader_eval)
  have a: "accepted ''7,yesterday,24-01-02 00:15:00,30m''" by (simp add: loader_eval)
  have p: "parts_of ''7,yesterday,24-01-02 00:15:00,30m'' ! 1 = ''yesterday''"
    by (simp add: loader_eval)
  have s: "strptime ''yesterday'' = Inl ValueError" by (simp add: strptime_eval)
  from loader_accepts [where line = "''no session here''" and recs = "[]"
      and before = "[]" and after = "[]"] n
  have 1: "load_records [] [''no session here''] = Inr []" by simp
  from loader_accepts [where line = "''7,yesterday,24-01-02 00:15:00,30m''" and recs = "[]"
      and before = "[]" and after = "[]" and e = ValueError] a p s
  have 2: "load_records [] [''7,yesterday,24-01-02 00:15:00,30m''] = Inl ValueError" by simp
  have b: "accepted ''1,24-01-01 23:45:00,24-01-02 00:15:00,30m''" by (simp add: loader_eval)
  have q: "parts_of ''1,24-01-01 23:45:00,24-01-02 00:15:00,30m''
             = [''1'', ''24-01-01 23:45:00'', ''24-01-02 00:15:00'', ''30m'']"
    by (simp add: loader_eval)
  have st: "strptime (parts_of ''1,24-01-01 23:45:00,24-01-02 00:15:00,30m'' ! 1)
              = Inr 63839749500"
    by (simp add: q) (simp add: strptime_eval)
  have en: "strptime (parts_of ''1,24-01-01 23:45:00,24-01-02 00:15:00,30m'' ! 2)
              = Inr 63839751300"
    by (simp add: q) (simp add: strptime_eval)
  have du: "parse_duration (parts_of ''1,24-01-01 23:45:00,24-01-02 00:15:00,30m'' ! 3)
              = Inr 1800"
    by (simp add: q) (simp add: duration_eval)
  have day: "toordinal 63839749500 = 738886" by (simp add: toordinal_def)
  have emp: "load_records [] [] = Inr []" by simp
  from loader_accepts [where line = "''1,24-01-01 23:45:00,24-01-02 00:15:00,30m''"
      and recs = "[]" and before = "[]" and after = "[]" and start_time = 63839749500
      and end_time = 63839751300 and duration = 1800] b st en du
  have "load_records [] ([] @ [''1,24-01-01 23:45:00,24-01-02 00:15:00,30m'']) =
            (case load_records [] [] of
               Inl e' \<Rightarrow> Inl e'
             | Inr recs' \<Rightarrow>
                 load_records
                   (recs' @ [\<lparr>Date = toordinal 63839749500, Start_Time = 63839749500,
                              End_Time = 63839751300, Duration = 1800\<rparr>]) [])"
    by blast
  then have 3: "load_records [] [''1,24-01-01 23:45:00,24-01-02 00:15:00,30m'']
     = Inr [\<lparr>Date = 738886, Start_Time = 63839749500, End_Time = 63839751300,
             Duration = 1800\<rparr>]"
    by (simp only: emp day sum.case append_Nil load_records.simps(1))
  have c: "accepted ''2,24-01-03 10:00:00,24-01-03 11:00:00,1.5h''"
    by (simp add: loader_eval)
  have r: "parts_of ''2,24-01-03 10:00:00,24-01-03 11:00:00,1.5h''
             = [''2'', ''24-01-03 10:00:00'', ''24-01-03 11:00:00'', ''1.5h'']"
    by (simp add: loader_eval)
  have st2: "strptime (parts_of ''2,24-01-03 10:00:00,24-01-03 11:00:00,1.5h'' ! 1)
              = Inr 63839872800"
    by (simp add: r) (simp add: strptime_eval)
  have en2: "strptime (parts_of ''2,24-01-03 10:00:00,24-01-03 11:00:00,1.5h'' ! 2)
              = Inr 63839876400"
    by (simp add: r) (simp add: strptime_eval)
  have du2: "parse_duration (parts_of ''2,24-01-03 10:00:00,24-01-03 11:00:00,1.5h'' ! 3)
              = Inl ValueError"
    by (simp add: r) (simp add: duration_eval)
  from loader_accepts [where line = "''2,24-01-03 10:00:00,24-01-03 11:00:00,1.5h''"
      and recs = "[]" and before = "[]" and after = "[]" and start_time = 63839872800
      and end_time = 63839876400 and e = ValueError] c st2 en2 du2 emp
  have 4: "load_records [] ([] @ [''2,24-01-03 10:00:00,24-01-03 11:00:00,1.5h''])
             = Inl ValueError"
    by blast
  then have 4: "load_records [] [''2,24-01-03 10:00:00,24-01-03 11:00:00,1.5h'']
             = Inl ValueError"
    by (simp only: append_Nil)
  from n a p s 1 2 b st en du 3 c du2 4 show ?thesis by simp
qed

subsection \<open>No accepted line\<close>

text \<open>
  Claim C2.  With no accepted line the analysis does not complete: the daily series is
  never bound, and reading it raises \<open>UnboundLocalError\<close> before any output exists.
  This holds for the empty input and for an input whose only line is not a session.
\<close>

theorem analyze_no_session_raises:
  "analyze_study_data [] today = Inl UnboundLocalError \<and>
   analyze_study_data [''no session here''] today = Inl UnboundLocalError"
  by (simp add: analyze_study_data_def parse_line_def loader_eval)

subsection \<open>The daily series\<close>

lemma col_min_Min:
  assumes "xs \<noteq> []"
  shows "col_min xs = Min (set xs)"
proof (cases xs)
  case Nil
  with assms show ?thesis by simp
next
  case (Cons a list)
  then show ?thesis using Min.set_eq_fold [of a list] by (simp add: col_min_def)
qed

lemma col_max_Max:
  assumes "xs \<noteq> []"
  shows "col_max xs = Max (set xs)"
proof (cases xs)
  case Nil
  with assms show ?thesis by simp
next
  case (Cons a list)
  then show ?thesis using Max.set_eq_fold [of a list] by (simp add: col_max_def)
qed

lemma day_total_absent: "d \<notin> Date ` set df \<Longrightarrow> day_total df d = 0"
  by (induction df) (auto simp: day_total_def)

lemma day_total_Cons:
  "day_total (r # df) d = (if Date r = d then Duration r else 0) + day_total df d"
  by (simp add: day_total_def)

lemma to_ns_add: "to_ns (a + b) = to_ns a + to_ns b"
  by (simp add: to_ns_def algebra_simps)

lemma to_ns_zero: "to_ns 0 = 0"
  by (simp add: to_ns_def)

lemma wrap64_id: "in_td64 x \<Longrightarrow> wrap64 x = x"
  by (simp add: in_td64_def td64_max_def wrap64_def)

lemma wrap64_add_left: "wrap64 (wrap64 a + b) = wrap64 (a + b)"
proof -
  have "(wrap64 a + b + 9223372036854775808) mod 18446744073709551616
          = ((a + 9223372036854775808) mod 18446744073709551616 + b) mod 18446744073709551616"
    by (simp add: wrap64_def)
  also have "\<dots> = (a + 9223372036854775808 + b) mod 18446744073709551616"
    by (rule mod_add_left_eq)
  finally show ?thesis by (simp add: wrap64_def algebra_simps)
qed

lemma wrap64_idem: "wrap64 (wrap64 a) = wrap64 a"
  using wrap64_add_left [of a 0] by simp

text \<open>On a 64-bit column the sum never fails, and the entry of a date is the wrapped
  total of what was there and the durations of the date.\<close>

lemma group_sum_td64:
  assumes "\<forall>r \<in> set df. in_td64 (to_ns (Duration r))"
    and "\<forall>v. g d = Some v \<longrightarrow> wrap64 v = v"
  shows "\<exists>g'. group_sum True df g = Inr g' \<and>
           g' d = (if d \<in> Date ` set df
                   then Some (wrap64 ((case g d of None \<Rightarrow> 0 | Some v \<Rightarrow> v) + to_ns (day_total df d)))
                   else g d)"
  using assms
proof (induction df arbitrary: g)
  case Nil
  then show ?case by simp
next
  case (Cons r df)
  define g1 where "g1 = (case g (Date r) of
        None \<Rightarrow> g(Date r \<mapsto> to_ns (Duration r))
      | Some sumx \<Rightarrow> g(Date r \<mapsto> wrap64 (sumx + to_ns (Duration r))))"
  have step: "add_to_group True r g = Inr g1"
    by (simp add: add_to_group_def g1_def Let_def split: option.splits)
  have r: "wrap64 (to_ns (Duration r)) = to_ns (Duration r)"
    using Cons.prems(1) by (simp add: wrap64_id)
  have g1d: "g1 d = (if Date r = d
                     then Some (wrap64 ((case g d of None \<Rightarrow> 0 | Some v \<Rightarrow> v) + to_ns (Duration r)))
                     else g d)"
    by (auto simp: g1_def r split: option.splits)
  have inv: "\<forall>v. g1 d = Some v \<longrightarrow> wrap64 v = v"
    using Cons.prems(2) by (auto simp: g1d wrap64_idem)
  from Cons.prems(1) have rest: "\<forall>r \<in> set df. in_td64 (to_ns (Duration r))" by simp
  from Cons.IH [of g1, OF rest inv] obtain g' where
    g': "group_sum True df g1 = Inr g'"
    and v: "g' d = (if d \<in> Date ` set df
                    then Some (wrap64 ((case g1 d of None \<Rightarrow> 0 | Some v \<Rightarrow> v) + to_ns (day_total df d)))
                    else g1 d)"
    by blast
  have run: "group_sum True (r # df) g = Inr g'" by (simp add: step g')
  have val: "g' d = (if d \<in> Date ` set (r # df)
                   then Some (wrap64 ((case g d of None \<Rightarrow> 0 | Some v \<Rightarrow> v) + to_ns (day_total (r # df) d)))
                   else g d)"
  proof (cases "Date r = d")
    case True
    show ?thesis
    proof (cases "d \<in> Date ` set df")
      case in_df: True
      then show ?thesis
        using True by (simp add: v g1d day_total_Cons to_ns_add wrap64_add_left add.assoc)
    next
      case False
      then show ?thesis
        using True by (simp add: v g1d day_total_Cons day_total_absent to_ns_zero)
    qed
  next
    case False
    then show ?thesis by (simp add: v g1d day_total_Cons)
  qed
  from run val show ?case by blast
qed


lemma groupby_sum_td64:
  assumes "is_td64_column df"
  shows "\<exists>g. groupby_sum df = Inr g \<and>
           (\<forall>d. (case g d of None \<Rightarrow> 0 | Some v \<Rightarrow> v) = wrap64 (to_ns (day_total df d)))"
proof -
  from assms have col: "\<forall>r \<in> set df. in_td64 (to_ns (Duration r))"
    by (simp add: is_td64_column_def list_all_iff)
  have inv: "\<forall>v. Map.empty d = Some v \<longrightarrow> wrap64 v = v" for d :: int by simp
  from group_sum_td64 [OF col inv] obtain g where g: "group_sum True df Map.empty = Inr g"
    by blast
  have "(case g d of None \<Rightarrow> 0 | Some v \<Rightarrow> v) = wrap64 (to_ns (day_total df d))" for d
  proof -
    from group_sum_td64 [OF col inv, of d] g
    have v: "g d = (if d \<in> Date ` set df then Some (wrap64 (to_ns (day_total df d))) else None)"
      by simp
    show ?thesis
    proof (cases "d \<in> Date ` set df")
      case True
      then show ?thesis by (simp add: v)
    next
      case False
      then show ?thesis by (simp add: v day_total_absent to_ns_zero wrap64_def)
    qed
  qed
  with g assms show ?thesis by (simp add: groupby_sum_def)
qed

lemma date_range_eq:
  assumes "df \<noteq> []"
  shows "date_range (col_min (map Date df)) (col_max (map Date df))
           = [Min (Date ` set df)..Max (Date ` set df)]"
proof -
  have "map Date df \<noteq> []" using assms by simp
  then have "col_min (map Date df) = Min (Date ` set df)"
    and "col_max (map Date df) = Max (Date ` set df)"
    by (simp_all add: col_min_Min col_max_Max)
  then show ?thesis by (simp add: date_range_def)
qed

lemma fill_missing_dates_index:
  assumes "df \<noteq> []" and "fill_missing_dates df = Inr spd"
  shows "map fst spd = [Min (Date ` set df)..Max (Date ` set df)]"
  using assms(2)
  by (auto simp: fill_missing_dates_def Let_def reindex_def date_range_eq [OF assms(1)] comp_def
      split: sum.splits)

lemma fill_missing_dates_td64:
  assumes "df \<noteq> []" and "is_td64_column df"
  shows "fill_missing_dates df =
           Inr (map (\<lambda>d. (d, wrap64 (to_ns (day_total df d))))
                  [Min (Date ` set df)..Max (Date ` set df)])"
proof -
  from groupby_sum_td64 [OF assms(2)] obtain g where g: "groupby_sum df = Inr g"
    and v: "\<And>d. (case g d of None \<Rightarrow> 0 | Some v \<Rightarrow> v) = wrap64 (to_ns (day_total df d))"
    by blast
  show ?thesis
    by (simp add: fill_missing_dates_def Let_def g reindex_def v date_range_eq [OF assms(1)])
qed

lemma to_hours_index: "map fst (to_hours spd) = map fst spd"
  by (induction spd) (auto simp: to_hours_def)

lemma density_nonempty: "df \<noteq> [] \<Longrightarrow> \<exists>heat. density df today = Inr heat"
  by (simp add: density_def Let_def)

text \<open>The analysis of a non-empty frame: the error of the daily sum, or the three
  series and the density.\<close>

lemma analyze_nonempty:
  assumes "load_records [] data = Inr df" and "df \<noteq> []"
  shows "analyze_study_data data today =
           (case fill_missing_dates df of
              Inl e \<Rightarrow> Inl e
            | Inr spd \<Rightarrow>
                (case density df today of
                   Inl e \<Rightarrow> Inl e
                 | Inr heat \<Rightarrow>
                     Inr \<lparr>study_per_day_hours = to_hours spd,
                          moving_avg_7d = rolling_mean 7 (to_hours spd),
                          moving_avg_30d = rolling_mean 30 (to_hours spd),
                          heat_out = heat\<rparr>))"
  using assms by (simp add: analyze_study_data_def Let_def split: sum.splits)

lemma ns_to_hours: "in_td64 (to_ns s) \<Longrightarrow>
    (of_int (wrap64 (to_ns s)) :: rat) / 1000000000 / 3600 = of_int s / 3600"
  by (simp add: wrap64_id) (simp add: to_ns_def)

text \<open>
  Claim C5, as amended.  When the load yields a non-empty list of sessions and the
  analysis returns, the daily series has one entry for every calendar day from the
  earliest to the latest start date, in order and without a gap.  When every duration
  fits the 64-bit nanosecond storage (at most 9223372036 seconds in magnitude) the
  analysis returns, and the value of a day is the 64-bit sum of the durations of the
  sessions that start on it, in nanoseconds (zero when there is none), divided by
  \<open>10^9\<close> and by 3600, as long as that sum is not the value read as "not a time";
  when the exact total of every day fits the storage as well, the value of a day is
  that total in seconds divided by 3600.
\<close>

theorem daily_series_contiguous:
  assumes "load_records [] data = Inr df" and "df \<noteq> []"
  shows "(\<forall>out. analyze_study_data data today = Inr out \<longrightarrow>
            map fst (study_per_day_hours out) = [Min (Date ` set df)..Max (Date ` set df)]) \<and>
         (is_td64_column df \<longrightarrow>
            (\<exists>out. analyze_study_data data today = Inr out \<and>
               ((\<forall>d \<in> Date ` set df. wrap64 (to_ns (day_total df d)) \<noteq> not_a_time) \<longrightarrow>
                  study_per_day_hours out =
                    map (\<lambda>d. (d, of_int (wrap64 (to_ns (day_total df d))) / 1000000000 / 3600))
                        [Min (Date ` set df)..Max (Date ` set df)]) \<and>
               ((\<forall>d \<in> Date ` set df. in_td64 (to_ns (day_total df d))) \<longrightarrow>
                  study_per_day_hours out =
                    map (\<lambda>d. (d, of_int (day_total df d) / 3600))
                        [Min (Date ` set df)..Max (Date ` set df)])))"
proof (intro conjI allI impI)
  fix out
  assume out: "analyze_study_data data today = Inr out"
  from out obtain spd where spd: "fill_missing_dates df = Inr spd"
    and h: "study_per_day_hours out = to_hours spd"
    by (auto simp: analyze_nonempty [OF assms] split: sum.splits)
  show "map fst (study_per_day_hours out) = [Min (Date ` set df)..Max (Date ` set df)]"
    by (simp add: h to_hours_index fill_missing_dates_index [OF assms(2) spd])
next
  assume col: "is_td64_column df"
  let ?days = "[Min (Date ` set df)..Max (Date ` set df)]"
  let ?spd = "map (\<lambda>d. (d, wrap64 (to_ns (day_total df d)))) ?days"
  from assms(2) obtain heat where heat: "density df today = Inr heat"
    using density_nonempty by blast
  define out where "out = \<lparr>study_per_day_hours = to_hours ?spd,
      moving_avg_7d = rolling_mean 7 (to_hours ?spd),
      moving_avg_30d = rolling_mean 30 (to_hours ?spd), heat_out = heat\<rparr>"
  have run: "analyze_study_data data today = Inr out"
    by (simp add: analyze_nonempty [OF assms] fill_missing_dates_td64 [OF assms(2) col] heat
        out_def)
  have hours: "study_per_day_hours out =
      map (\<lambda>d. (d, of_int (wrap64 (to_ns (day_total df d))) / 1000000000 / 3600)) ?days"
    by (simp add: out_def to_hours_def comp_def)
  have exact: "study_per_day_hours out = map (\<lambda>d. (d, of_int (day_total df d) / 3600)) ?days"
    if b: "\<forall>d \<in> Date ` set df. in_td64 (to_ns (day_total df d))"
  proof -
    have "in_td64 (to_ns (day_total df d))" for d
    proof (cases "d \<in> Date ` set df")
      case True
      with b show ?thesis by blast
    next
      case False
      then show ?thesis by (simp add: day_total_absent to_ns_zero in_td64_def td64_max_def)
    qed
    then have "(of_int (wrap64 (to_ns (day_total df d))) :: rat) / 1000000000 / 3600
                 = of_int (day_total df d) / 3600" for d
      by (rule ns_to_hours)
    then show ?thesis by (simp only: hours)
  qed
  from run hours exact
  show "\<exists>out. analyze_study_data data today = Inr out \<and>
               ((\<forall>d \<in> Date ` set df. wrap64 (to_ns (day_total df d)) \<noteq> not_a_time) \<longrightarrow>
                  study_per_day_hours out =
                    map (\<lambda>d. (d, of_int (wrap64 (to_ns (day_total df d))) / 1000000000 / 3600))
                        ?days) \<and>
               ((\<forall>d \<in> Date ` set df. in_td64 (to_ns (day_total df d))) \<longrightarrow>
                  study_per_day_hours out =
                    map (\<lambda>d. (d, of_int (day_total df d) / 3600)) ?days)"
    by blast
qed

lemma example_log_loads: "load_records [] example_log = Inr example_sessions"
  by (simp add: example_log_def example_sessions_def parse_line_def loader_eval strptime_eval
      duration_eval toordinal_def)

lemma long_log_loads: "load_records [] long_log = Inr long_sessions"
  by (simp add: long_log_def long_sessions_def parse_line_def loader_eval strptime_eval
      duration_eval toordinal_def)


lemmas daily_eval =
  is_td64_column_def in_td64_def td64_max_def to_ns_def wrap64_def not_a_time_def
  day_total_def upto.simps

theorem daily_series_contiguous_witness:
  "load_records [] example_log = Inr example_sessions \<and> example_sessions \<noteq> [] \<and>
   is_td64_column example_sessions \<and>
   Date ` set example_sessions = {738886, 738888} \<and>
   in_td64 (to_ns (day_total example_sessions 738886)) \<and>
   in_td64 (to_ns (day_total example_sessions 738888)) \<and>
   (\<exists>out. analyze_study_data example_log example_now = Inr out \<and>
          map fst (study_per_day_hours out) = [738886, 738887, 738888] \<and>
          study_per_day_hours out = [(738886, 1 / 2), (738887, 0), (738888, 1)]) \<and>
   load_records [] long_log = Inr long_sessions \<and> long_sessions \<noteq> [] \<and>
   is_td64_column long_sessions \<and>
   Date ` set long_sessions = {738886} \<and>
   wrap64 (to_ns (day_total long_sessions 738886)) \<noteq> not_a_time \<and>
   (\<exists>out. analyze_study_data long_log example_now = Inr out \<and>
          study_per_day_hours out
            = [(738886, of_int (wrap64 14400000000000000000) / 1000000000 / 3600)])"
proof -
  have ne: "example_sessions \<noteq> []" by (simp add: example_sessions_def)
  have col: "is_td64_column example_sessions" by (simp add: example_sessions_def daily_eval)
  have ds: "Date ` set example_sessions = {738886, 738888}"
    by (simp add: example_sessions_def)
  have b1: "in_td64 (to_ns (day_total example_sessions 738886))"
    by (simp add: example_sessions_def daily_eval)
  have b2: "in_td64 (to_ns (day_total example_sessions 738888))"
    by (simp add: example_sessions_def daily_eval)
  from b1 b2
  have b: "\<forall>d \<in> Date ` set example_sessions. in_td64 (to_ns (day_total example_sessions d))"
    by (simp only: ds) blast
  have days: "[Min (Date ` set example_sessions)..Max (Date ` set example_sessions)]
                = [738886, 738887, 738888]"
    by (simp add: example_sessions_def upto.simps)
  have r: "map (\<lambda>d. (d, (of_int (day_total example_sessions d) :: rat) / 3600))
             [738886, 738887, 738888]
           = [(738886, 1 / 2), (738887, 0), (738888, 1)]"
    by (simp add: example_sessions_def day_total_def)
  from daily_series_contiguous [OF example_log_loads ne, of example_now] col b
  obtain out where o: "analyze_study_data example_log example_now = Inr out"
    and i: "map fst (study_per_day_hours out)
              = [Min (Date ` set example_sessions)..Max (Date ` set example_sessions)]"
    and v: "study_per_day_hours out
              = map (\<lambda>d. (d, of_int (day_total example_sessions d) / 3600))
                  [Min (Date ` set example_sessions)..Max (Date ` set example_sessions)]"
    by blast
  from i have i': "map fst (study_per_day_hours out) = [738886, 738887, 738888]"
    by (simp only: days)
  from v have v': "study_per_day_hours out = [(738886, 1 / 2), (738887, 0), (738888, 1)]"
    by (simp only: days r)
  from o i' v' have 1: "\<exists>out. analyze_study_data example_log example_now = Inr out \<and>
          map fst (study_per_day_hours out) = [738886, 738887, 738888] \<and>
          study_per_day_hours out = [(738886, 1 / 2), (738887, 0), (738888, 1)]"
    by (intro exI [of _ out] conjI)
  have nl: "long_sessions \<noteq> []" by (simp add: long_sessions_def)
  have cl: "is_td64_column long_sessions" by (simp add: long_sessions_def daily_eval)
  have dsl: "Date ` set long_sessions = {738886}"
    by (simp add: long_sessions_def)
  have n1: "wrap64 (to_ns (day_total long_sessions 738886)) \<noteq> not_a_time"
    by (simp add: long_sessions_def daily_eval)
  from n1
  have nn: "\<forall>d \<in> Date ` set long_sessions.
              wrap64 (to_ns (day_total long_sessions d)) \<noteq> not_a_time"
    by (simp only: dsl) blast
  have dl: "[Min (Date ` set long_sessions)..Max (Date ` set long_sessions)] = [738886]"
    by (simp add: long_sessions_def upto.simps)
  have tl: "to_ns (day_total long_sessions 738886) = 14400000000000000000"
    by (simp add: long_sessions_def day_total_def to_ns_def)
  from daily_series_contiguous [OF long_log_loads nl, of example_now] cl nn
  obtain out2 where o2: "analyze_study_data long_log example_now = Inr out2"
    and v2: "study_per_day_hours out2
              = map (\<lambda>d. (d, of_int (wrap64 (to_ns (day_total long_sessions d)))
                              / 1000000000 / 3600))
                  [Min (Date ` set long_sessions)..Max (Date ` set long_sessions)]"
    by blast
  from v2 have v2': "study_per_day_hours out2
            = [(738886, of_int (wrap64 14400000000000000000) / 1000000000 / 3600)]"
    by (simp only: dl list.map tl)
  from o2 v2' have 2: "\<exists>out. analyze_study_data long_log example_now = Inr out \<and>
          study_per_day_hours out
            = [(738886, of_int (wrap64 14400000000000000000) / 1000000000 / 3600)]"
    by (intro exI [of _ out2] conjI)
  from example_log_loads ne col ds b1 b2 1 long_log_loads nl cl dsl n1 2 show ?thesis
    by blast
qed

text \<open>
  Claim C5 as stated fails when a day's total leaves the 64-bit storage: two sessions
  of 2000000 hours on one day give about \<open>-1124095.576\<close> hours, not 4000000.
\<close>

theorem daily_sum_wraps:
  "load_records [] long_log = Inr long_sessions \<and>
   is_td64_column long_sessions \<and>
   day_total long_sessions 738886 = 14400000000 \<and>
   (of_int (day_total long_sessions 738886) :: rat) / 3600 = 4000000 \<and>
   wrap64 (to_ns (day_total long_sessions 738886)) = - 4046744073709551616 \<and>
   map_sum id study_per_day_hours (analyze_study_data long_log example_now)
     = Inr [(738886, - 4046744073709551616 / 1000000000 / 3600)]"
proof -
  have ne: "long_sessions \<noteq> []" by (simp add: long_sessions_def)
  have col: "is_td64_column long_sessions" by (simp add: long_sessions_def daily_eval)
  have t: "day_total long_sessions 738886 = 14400000000"
    by (simp add: long_sessions_def day_total_def)
  have w: "wrap64 (to_ns (day_total long_sessions 738886)) = - 4046744073709551616"
    by (simp add: t to_ns_def wrap64_def)
  have days: "[Min (Date ` set long_sessions)..Max (Date ` set long_sessions)] = [738886]"
    by (simp add: long_sessions_def upto.simps)
  obtain heat where heat: "density long_sessions example_now = Inr heat"
    using density_nonempty [OF ne] by blast
  have "map_sum id study_per_day_hours (analyze_study_data long_log example_now)
     = Inr [(738886, - 4046744073709551616 / 1000000000 / 3600)]"
    by (simp add: analyze_nonempty [OF long_log_loads ne]
        fill_missing_dates_td64 [OF ne col] days heat to_hours_def w)
  with long_log_loads col t w show ?thesis by simp
qed

subsection \<open>Rolling means\<close>

lemma fold_add_mean: "fold add_mean xs st = (fst st + length xs, snd st + sum_list xs)"
  by (induction xs arbitrary: st) (simp_all add: add_mean_def)

lemma fold_remove_mean: "fold remove_mean xs st = (fst st - length xs, snd st - sum_list xs)"
  by (induction xs arbitrary: st) (simp_all add: remove_mean_def)

lemma range_sum_split: "a \<le> b \<Longrightarrow> b \<le> c \<Longrightarrow> range_sum vals a c = range_sum vals a b + range_sum vals b c"
proof -
  assume "a \<le> b" "b \<le> c"
  then have "[a..<c] = [a..<b] @ [b..<c]"
    by (metis le_Suc_ex upt_add_eq_append)
  then show ?thesis by (simp add: range_sum_def)
qed

lemma roll_step:
  assumes W: "0 < W" and prev: "i = 0 \<or> st = window_state W vals (i - 1)"
  shows "(if i = 0 \<or> i \<le> window_start W i
          then fold add_mean (map ((!) vals) [window_start W i..<i + 1]) (0, 0)
          else fold add_mean (map ((!) vals) [i..<i + 1])
                 (fold remove_mean (map ((!) vals) [window_start W (i - 1)..<window_start W i]) st))
         = window_state W vals i"
proof (cases "i = 0 \<or> i \<le> window_start W i")
  case True
  have "fold add_mean (map ((!) vals) [window_start W i..<i + 1]) (0, 0) = window_state W vals i"
    by (simp add: fold_add_mean window_state_def range_sum_def del: upt_Suc)
  then show ?thesis by (simp only: True if_True)
next
  case False
  then obtain j where j: "i = Suc j" by (cases i) auto
  from False prev have st: "st = window_state W vals j" by (simp add: j)
  let ?a = "window_start W j" and ?b = "window_start W (Suc j)"
  have le1: "?a \<le> ?b" and le2: "?b \<le> Suc j"
    using W by (auto simp: window_start_def)
  have sp: "range_sum vals ?a (Suc j) = range_sum vals ?a ?b + range_sum vals ?b (Suc j)"
    using le1 le2 by (rule range_sum_split)
  have sp2: "range_sum vals ?b (Suc (Suc j)) = range_sum vals ?b (Suc j) + vals ! Suc j"
    using le2 by (simp add: range_sum_def)
  have len: "length (map ((!) vals) [?a..<?b]) = ?b - ?a" by simp
  have rem: "fold remove_mean (map ((!) vals) [?a..<?b]) st
             = (Suc j - ?b, range_sum vals ?b (Suc j))"
  proof -
    have "fold remove_mean (map ((!) vals) [?a..<?b]) st
          = (Suc j - ?a - (?b - ?a), range_sum vals ?a (Suc j) - range_sum vals ?a ?b)"
      unfolding fold_remove_mean len st window_state_def range_sum_def by simp
    moreover have "Suc j - ?a - (?b - ?a) = Suc j - ?b" using le1 le2 by simp
    ultimately show ?thesis using sp by simp
  qed
  have one: "map ((!) vals) [Suc j..<Suc j + 1] = [vals ! Suc j]" by simp
  have "fold add_mean (map ((!) vals) [Suc j..<Suc j + 1])
          (fold remove_mean (map ((!) vals) [?a..<?b]) st)
        = window_state W vals (Suc j)"
    unfolding rem one using le2 sp2
    by (simp add: add_mean_def window_state_def Suc_diff_le)
  then have "fold add_mean (map ((!) vals) [i..<i + 1])
          (fold remove_mean (map ((!) vals) [window_start W (i - 1)..<window_start W i]) st)
        = window_state W vals i"
    by (simp add: j)
  then show ?thesis by (simp only: False if_False)
qed

lemma roll_mean_states:
  "0 < W \<Longrightarrow> i = 0 \<or> st = window_state W vals (i - 1) \<Longrightarrow>
   roll_mean W vals i st = map (\<lambda>k. calc_mean W (window_state W vals k)) [i..<length vals]"
proof (induction W vals i st rule: roll_mean.induct)
  case (1 W vals i st)
  show ?case
  proof (cases "i < length vals")
    case False
    then show ?thesis by (simp add: roll_mean.simps [of W vals i st])
  next
    case True
    let ?st' = "window_state W vals i"
    have step: "(if i = 0 \<or> i \<le> window_start W i
          then fold add_mean (map ((!) vals) [window_start W i..<i + 1]) (0, 0)
          else fold add_mean (map ((!) vals) [i..<i + 1])
                 (fold remove_mean (map ((!) vals) [window_start W (i - 1)..<window_start W i]) st))
         = ?st'"
      using "1.prems" by (rule roll_step)
    have rest: "roll_mean W vals (i + 1) ?st' =
                  map (\<lambda>k. calc_mean W (window_state W vals k)) [i + 1..<length vals]"
      using "1.IH" [OF True refl refl step [symmetric]] "1.prems"(1) by simp
    have unfold: "roll_mean W vals i st = calc_mean W ?st' # roll_mean W vals (i + 1) ?st'"
      by (subst roll_mean.simps) (simp only: True if_True Let_def step)
    from True have "[i..<length vals] = i # [i + 1..<length vals]"
      by (simp add: upt_conv_Cons)
    with unfold rest show ?thesis by simp
  qed
qed

lemma range_sum_take_drop:
  "b \<le> length vals \<Longrightarrow> range_sum vals a b = sum_list (take (b - a) (drop a vals))"
proof -
  assume b: "b \<le> length vals"
  have "map ((!) vals) [a..<b] = take (b - a) (drop a vals)"
    using b by (intro nth_equalityI) auto
  then show ?thesis by (simp add: range_sum_def)
qed


lemma rolling_mean_eq:
  assumes W: "0 < W"
  shows "rolling_mean W series =
           map (\<lambda>i. (fst (series ! i),
                      if i + 1 < W then None else Some (window_mean W (map snd series) i)))
               [0..<length series]"
proof -
  let ?vals = "map snd series"
  have calc: "calc_mean W (window_state W ?vals k) =
              (if k + 1 < W then None else Some (window_mean W ?vals k))"
    if k: "k < length series" for k
  proof (cases "k + 1 < W")
    case True
    then show ?thesis by (simp add: calc_mean_def window_state_def window_start_def)
  next
    case False
    then have ws: "window_start W k = k + 1 - W" and cnt: "k + 1 - window_start W k = W"
      by (simp_all add: window_start_def)
    have "range_sum ?vals (k + 1 - W) (k + 1) = sum_list (take (k + 1 - (k + 1 - W)) (drop (k + 1 - W) ?vals))"
      using k by (intro range_sum_take_drop) simp
    moreover have "k + 1 - (k + 1 - W) = W" using False by simp
    ultimately have "range_sum ?vals (k + 1 - W) (k + 1) = sum_list (take W (drop (k + 1 - W) ?vals))"
      by simp
    with False W cnt show ?thesis
      by (simp add: calc_mean_def window_state_def ws window_mean_def)
  qed
  have "roll_mean W ?vals 0 (0, 0) = map (\<lambda>k. calc_mean W (window_state W ?vals k)) [0..<length ?vals]"
    using W by (intro roll_mean_states) simp_all
  also have "\<dots> = map (\<lambda>k. if k + 1 < W then None else Some (window_mean W ?vals k)) [0..<length series]"
    using calc by simp
  finally have rm: "roll_mean W ?vals 0 (0, 0) =
      map (\<lambda>k. if k + 1 < W then None else Some (window_mean W ?vals k)) [0..<length series]" .
  show ?thesis
    unfolding rolling_mean_def rm
    by (intro nth_equalityI) simp_all
qed

lemma leading_missing_eq:
  assumes W: "0 < W"
  shows "leading_missing (rolling_mean W series) = min (length series) (W - 1)"
proof -
  let ?f = "\<lambda>i. (fst (series ! i),
                  if i + 1 < W then None else Some (window_mean W (map snd series) i))"
  let ?n = "min (length series) (W - 1)"
  have split: "[0..<length series] = [0..<?n] @ [?n..<length series]"
    by (metis min.cobounded1 upt_add_eq_append le_add_diff_inverse zero_le)
  have a: "\<forall>p \<in> set (map ?f [0..<?n]). snd p = None" by auto
  have b: "map ?f [?n..<length series] = [] \<or> snd (hd (map ?f [?n..<length series])) \<noteq> None"
  proof (cases "?n < length series")
    case True
    then have "[?n..<length series] = ?n # [Suc ?n..<length series]" by (simp add: upt_conv_Cons)
    moreover from True have "\<not> ?n + 1 < W" by (auto simp: min_def)
    ultimately show ?thesis by simp
  next
    case False
    then show ?thesis by simp
  qed
  have "takeWhile (\<lambda>p. snd p = None) (map ?f [0..<?n] @ map ?f [?n..<length series])
        = map ?f [0..<?n]"
  proof (cases "map ?f [?n..<length series]")
    case Nil
    have "takeWhile (\<lambda>p. snd p = None) (map ?f [0..<?n]) = map ?f [0..<?n]"
      using a by (simp only: takeWhile_eq_all_conv)
    then show ?thesis by (simp only: Nil append_Nil2)
  next
    case (Cons y ys)
    have y: "snd y \<noteq> None" using b unfolding Cons by simp
    have "takeWhile (\<lambda>p. snd p = None) (map ?f [0..<?n] @ y # ys)
          = map ?f [0..<?n] @ takeWhile (\<lambda>p. snd p = None) (y # ys)"
      using a by (intro takeWhile_append2) blast
    also have "\<dots> = map ?f [0..<?n]" using y by simp
    finally show ?thesis by (simp only: Cons)
  qed
  then have "takeWhile (\<lambda>p. snd p = None) (map ?f [0..<length series]) = map ?f [0..<?n]"
    using split by (metis map_append)
  then show ?thesis
    by (simp add: leading_missing_def rolling_mean_eq [OF W])
qed


text \<open>
  Claim C6, as amended.  For a window \<open>W\<close> of at least one sample (7 and 30 in the
  analysis) the smoothed series has the length and the dates of the daily series; the
  positions without a value are the first \<open>min(N, W - 1)\<close> ones, where \<open>N\<close> is the
  length of the series; every position \<open>i\<close> from \<open>W - 1\<close> on holds the arithmetic mean
  of the \<open>W\<close> values that end at \<open>i\<close>.  The two moving averages of the analysis are
  these series for 7 and 30.
\<close>

theorem rolling_mean_positions:
  assumes "0 < W"
  shows "length (rolling_mean W series) = length series \<and>
         leading_missing (rolling_mean W series) = min (length series) (W - 1) \<and>
         (\<forall>i < length series.
            rolling_mean W series ! i =
              (fst (series ! i),
               if i + 1 < W then None else Some (window_mean W (map snd series) i))) \<and>
         map_sum id moving_avg_7d (analyze_study_data data today)
           = map_sum id (\<lambda>out. rolling_mean 7 (study_per_day_hours out))
               (analyze_study_data data today) \<and>
         map_sum id moving_avg_30d (analyze_study_data data today)
           = map_sum id (\<lambda>out. rolling_mean 30 (study_per_day_hours out))
               (analyze_study_data data today)"
proof (intro conjI)
  show "length (rolling_mean W series) = length series"
    by (simp add: rolling_mean_eq [OF assms])
  show "leading_missing (rolling_mean W series) = min (length series) (W - 1)"
    using assms by (rule leading_missing_eq)
  show "\<forall>i < length series.
            rolling_mean W series ! i =
              (fst (series ! i),
               if i + 1 < W then None else Some (window_mean W (map snd series) i))"
    by (simp add: rolling_mean_eq [OF assms])
  show "map_sum id moving_avg_7d (analyze_study_data data today)
           = map_sum id (\<lambda>out. rolling_mean 7 (study_per_day_hours out))
               (analyze_study_data data today)"
    by (auto simp: analyze_study_data_def Let_def split: sum.splits if_splits option.splits)
  show "map_sum id moving_avg_30d (analyze_study_data data today)
           = map_sum id (\<lambda>out. rolling_mean 30 (study_per_day_hours out))
               (analyze_study_data data today)"
    by (auto simp: analyze_study_data_def Let_def split: sum.splits if_splits option.splits)
qed

lemmas rolling_eval =
  rolling_mean_def roll_mean.simps window_start_def add_mean_def remove_mean_def
  calc_mean_def leading_missing_def Let_def

text \<open>
  Claim C6 as stated fails on a series shorter than \<open>W - 1\<close>: a series of three days
  has three positions, all without a value, and not six.
\<close>

theorem rolling_mean_short_series:
  "rolling_mean 7 [(738886, 1 / 2), (738887, 0), (738888, 1)]
     = [(738886, None), (738887, None), (738888, None)] \<and>
   leading_missing (rolling_mean 7 [(738886, 1 / 2), (738887, 0), (738888, 1)]) = 3 \<and>
   leading_missing (rolling_mean 7 [(738886, 1 / 2), (738887, 0), (738888, 1)]) \<noteq> max 0 (7 - 1)"
  by (simp add: rolling_eval)

theorem rolling_mean_positions_witness:
  "(0::nat) < 7 \<and>
   leading_missing (rolling_mean 7 [(1, 1), (2, 2), (3, 3), (4, 4), (5, 5), (6, 6), (7, 7), (8, 8)]) = 6 \<and>
   rolling_mean 7 [(1, 1), (2, 2), (3, 3), (4, 4), (5, 5), (6, 6), (7, 7), (8, 8)] ! 5 = (6, None) \<and>
   rolling_mean 7 [(1, 1), (2, 2), (3, 3), (4, 4), (5, 5), (6, 6), (7, 7), (8, 8)] ! 7 = (8, Some 5)"
proof -
  have W: "(0::nat) < 7" by simp
  note t = rolling_mean_positions [OF W,
      of "[(1, 1), (2, 2), (3, 3), (4, 4), (5, 5), (6, 6), (7, 7), (8, 8)]"]
  from t have "leading_missing (rolling_mean 7 [(1, 1), (2, 2), (3, 3), (4, 4), (5, 5), (6, 6), (7, 7), (8, 8)]) = 6"
    by simp
  moreover from t have "rolling_mean 7 [(1, 1), (2, 2), (3, 3), (4, 4), (5, 5), (6, 6), (7, 7), (8, 8)] ! 5 = (6, None)"
    by simp
  moreover from t have "rolling_mean 7 [(1, 1), (2, 2), (3, 3), (4, 4), (5, 5), (6, 6), (7, 7), (8, 8)] ! 7 = (8, Some 5)"
    by (simp add: window_mean_def)
  ultimately show ?thesis by simp
qed

subsection \<open>The minute walk\<close>

lemma walk_minutes_cursors:
  "walk_minutes heat cursor seg_end = foldl visit heat (minute_cursors cursor seg_end)"
proof (induction heat cursor seg_end rule: walk_minutes.induct)
  case (1 heat cursor seg_end)
  show ?case
  proof (cases "cursor \<le> seg_end")
    case True
    have v: "bump heat (weekday cursor) (bin_idx cursor) = visit heat cursor"
      by (simp add: visit_def)
    from True show ?thesis
      using "1.IH" [OF True]
      by (subst walk_minutes.simps, subst minute_cursors.simps) (simp add: v)
  next
    case False
    then show ?thesis
      by (subst walk_minutes.simps, subst minute_cursors.simps) simp
  qed
qed

lemma walk_session_cursors:
  "walk_session heat start_time end_time = foldl visit heat (session_cursors start_time end_time)"
proof (induction heat start_time end_time rule: walk_session.induct)
  case (1 heat start_time end_time)
  show ?case
  proof (cases "start_time < end_time")
    case True
    then show ?thesis
      using "1.IH" [OF True refl refl]
      by (subst walk_session.simps, subst session_cursors.simps)
         (simp add: Let_def walk_minutes_cursors)
  next
    case False
    then show ?thesis
      by (subst walk_session.simps, subst session_cursors.simps) simp
  qed
qed

lemma minute_cursors_length:
  "int (length (minute_cursors c e)) = (if c \<le> e then (e - c) div 60 + 1 else 0)"
proof (induction c e rule: minute_cursors.induct)
  case (1 c e)
  show ?case
  proof (cases "c \<le> e")
    case False
    then show ?thesis by (subst minute_cursors.simps) simp
  next
    case True
    have unfold: "minute_cursors c e = c # minute_cursors (c + 60) e"
      using True by (subst minute_cursors.simps) simp
    show ?thesis
    proof (cases "c + 60 \<le> e")
      case True
      have "(e - c) div 60 = (e - (c + 60)) div 60 + 1" by simp
      with True \<open>c \<le> e\<close> "1.IH" show ?thesis unfolding unfold by simp
    next
      case False
      with \<open>c \<le> e\<close> have "(e - c) div 60 = 0" by simp
      with False \<open>c \<le> e\<close> "1.IH" show ?thesis unfolding unfold by simp
    qed
  qed
qed

lemma end_of_day_eq: "end_of_day t = (t div 86400) * 86400 + 86399"
  by (simp add: end_of_day_def at_time_def toordinal_def)

lemma end_of_day_ge: "t \<le> end_of_day t"
  unfolding end_of_day_eq by simp

lemma end_of_day_midnight: "end_of_day (end_of_day t + 1) = end_of_day t + 86400"
  unfolding end_of_day_eq by simp

lemma next_midnight_mod: "(end_of_day t + 1) mod 86400 = 0"
  unfolding end_of_day_eq by simp

lemma mod_day_shift:
  assumes "M mod 86400 = (0::int)"
  shows "e mod 86400 = (e - M) mod 86400"
proof -
  have "(e - M) mod 86400 = (e mod 86400 - M mod 86400) mod 86400"
    by (rule mod_diff_eq [symmetric])
  with assms show ?thesis by simp
qed

lemma div_minus_day: "(x - 86400) div 60 = x div 60 - (1440::int)"
proof -
  have "(x - 86400 + 60 * 1440) div 60 = 1440 + (x - 86400) div 60"
    by (rule div_mult_self2) simp
  moreover have "x - 86400 + 60 * 1440 = x" by simp
  ultimately show ?thesis by simp
qed

lemma session_minutes_midnight:
  assumes "M mod 86400 = 0"
  shows "session_minutes M e =
           (if M < e then (e - M) div 60 + 1 - (if e mod 86400 = 0 then 1 else 0) else 0)"
proof (cases "M < e")
  case False
  then show ?thesis by (simp add: session_minutes_def)
next
  case True
  have "M div 86400 * 86400 = M"
    using assms by (simp add: mod_eq_0_iff_dvd)
  then have de: "end_of_day M = M + 86399"
    unfolding end_of_day_eq by simp
  have shift: "e mod 86400 = (e - M) mod 86400"
    using assms by (rule mod_day_shift)
  consider "e \<le> M + 86399" | "e = M + 86400" | "M + 86400 < e" by linarith
  then show ?thesis
  proof cases
    case 1
    with True have "(e - M) mod 86400 = e - M" by simp
    with True shift have nz: "e mod 86400 \<noteq> 0" by simp
    have m: "min e (M + 86399) = e" using 1 by simp
    have n: "\<not> M + 86399 + 1 < e" using 1 by simp
    show ?thesis
      unfolding session_minutes_def de m using True nz n by simp
  next
    case 2
    then have z: "e mod 86400 = 0" using shift by simp
    have m: "min e (M + 86399) = M + 86399" using 2 by simp
    have n: "\<not> M + 86399 + 1 < e" using 2 by simp
    have d: "(e - M) div 60 = 1440" using 2 by simp
    have d2: "(M + 86399 - M) div 60 = (1439::int)" by simp
    show ?thesis
      unfolding session_minutes_def de m using True z n d d2 by simp
  next
    case 3
    have m: "min e (M + 86399) = M + 86399" using 3 by simp
    have y: "M + 86399 + 1 < e" using 3 by simp
    have d: "(e - (M + 86399 + 1)) div 60 = (e - M) div 60 - 1440"
      using div_minus_day [of "e - M"] by (simp add: algebra_simps)
    have d2: "(M + 86399 - M) div 60 = (1439::int)" by simp
    show ?thesis
      unfolding session_minutes_def de m using True y d d2 by simp
  qed
qed

lemma session_cursors_length:
  "int (length (session_cursors s e)) = session_minutes s e"
proof (induction s e rule: session_cursors.induct)
  case (1 s e)
  show ?case
  proof (cases "s < e")
    case False
    then show ?thesis by (subst session_cursors.simps) (simp add: session_minutes_def)
  next
    case True
    let ?de = "end_of_day s"
    have unfold: "session_cursors s e =
        minute_cursors s (min e ?de) @ session_cursors (min e ?de + 1) e"
      using True by (subst session_cursors.simps) (simp add: Let_def)
    have first: "int (length (minute_cursors s (min e ?de))) = (min e ?de - s) div 60 + 1"
      using True end_of_day_ge [of s] by (simp add: minute_cursors_length)
    have IH: "int (length (session_cursors (min e ?de + 1) e)) = session_minutes (min e ?de + 1) e"
      using "1.IH" [OF True refl refl] .
    show ?thesis
    proof (cases "e \<le> ?de")
      case True
      then have "session_minutes (min e ?de + 1) e = 0" by (simp add: session_minutes_def)
      with True \<open>s < e\<close> first IH show ?thesis
        unfolding unfold by (simp add: session_minutes_def)
    next
      case False
      then have m: "min e ?de = ?de" by simp
      have rest: "session_minutes (?de + 1) e =
         (if ?de + 1 < e then (e - (?de + 1)) div 60 + 1 - (if e mod 86400 = 0 then 1 else 0) else 0)"
        using next_midnight_mod by (rule session_minutes_midnight)
      from first IH rest \<open>s < e\<close> show ?thesis
        unfolding unfold m by (simp add: session_minutes_def m)
    qed
  qed
qed


subsection \<open>Counting in the matrix\<close>

lemma weekday_less: "weekday c < 7"
  by (simp add: weekday_def nat_less_iff)

lemma div_bounds:
  fixes x :: int
  assumes "0 \<le> x" "x < n * k" "0 < k"
  shows "0 \<le> x div k \<and> x div k < n"
proof
  show "0 \<le> x div k" using assms by (simp add: pos_imp_zdiv_nonneg_iff)
  have "k * (x div k) + x mod k = x" by (rule mult_div_mod_eq)
  moreover have "0 \<le> x mod k" using assms(3) by simp
  ultimately have le: "k * (x div k) \<le> x" by linarith
  have "n * k = k * n" by simp
  with le assms(2) have "k * (x div k) < k * n" by linarith
  with assms(3) show "x div k < n" by (simp only: mult_less_cancel_left_pos)
qed

lemma bin_idx_less: "bin_idx c < bins"
proof -
  have "0 \<le> c mod 86400" and "c mod 86400 < 24 * 3600" by simp_all
  then have h: "0 \<le> hour c \<and> hour c < 24"
    unfolding hour_def by (intro div_bounds) simp_all
  have "0 \<le> c mod 3600" and "c mod 3600 < 60 * 60" by simp_all
  then have m: "0 \<le> minute c \<and> minute c < 60"
    unfolding minute_def by (intro div_bounds) simp_all
  from h m have "0 \<le> hour c * 60 + minute c" and "hour c * 60 + minute c < 48 * 30" by simp_all
  then have "0 \<le> (hour c * 60 + minute c) div 30 \<and> (hour c * 60 + minute c) div 30 < 48"
    by (intro div_bounds) simp_all
  then show ?thesis by (simp add: bin_idx_def bins_def nat_less_iff)
qed

lemma wf_zero_heat: "wf_heat zero_heat"
  by (simp add: wf_heat_def zero_heat_def list_all_iff)

lemma total_zero_heat: "total_minutes zero_heat = 0"
  by (simp add: total_minutes_def zero_heat_def sum_list_replicate)

lemma sum_list_bump_row:
  fixes row :: "rat list"
  shows "b < length row \<Longrightarrow> sum_list (row[b := row ! b + 1]) = sum_list row + 1"
proof (induction row arbitrary: b)
  case Nil
  then show ?case by simp
next
  case (Cons x row)
  then show ?case by (cases b) simp_all
qed

lemma total_update_row:
  "w < length heat \<Longrightarrow> sum_list row' = sum_list (heat ! w) + 1 \<Longrightarrow>
   total_minutes (heat[w := row']) = total_minutes heat + 1"
proof (induction heat arbitrary: w)
  case Nil
  then show ?case by simp
next
  case (Cons r heat)
  show ?case
  proof (cases w)
    case 0
    with Cons.prems show ?thesis by (simp add: total_minutes_def)
  next
    case (Suc v)
    with Cons.prems Cons.IH [of v] show ?thesis by (simp add: total_minutes_def)
  qed
qed

lemma wf_heat_row: "wf_heat heat \<Longrightarrow> w < 7 \<Longrightarrow> length (heat ! w) = bins"
  by (simp add: wf_heat_def list_all_length)

lemma bump_wf:
  assumes "wf_heat heat"
  shows "wf_heat (bump heat w b)"
proof (cases "w < length heat")
  case True
  with assms show ?thesis
    by (auto simp: wf_heat_def bump_def list_all_length nth_list_update)
next
  case False
  with assms show ?thesis by (simp add: bump_def list_update_beyond)
qed

lemma bump_total:
  assumes "wf_heat heat" "w < 7" "b < bins"
  shows "total_minutes (bump heat w b) = total_minutes heat + 1"
proof -
  from assms have len: "w < length heat" and row: "b < length (heat ! w)"
    by (simp_all add: wf_heat_def list_all_length)
  from row have "sum_list ((heat ! w)[b := heat ! w ! b + 1]) = sum_list (heat ! w) + 1"
    by (rule sum_list_bump_row)
  with len show ?thesis unfolding bump_def by (rule total_update_row)
qed

lemma bump_cell:
  assumes "wf_heat heat" "w < 7" "b < bins" "w' < 7" "b' < bins"
  shows "bump heat w b ! w' ! b' = heat ! w' ! b' + (if w = w' \<and> b = b' then 1 else 0)"
  using assms by (auto simp: wf_heat_def bump_def list_all_length nth_list_update)

lemma visit_wf: "wf_heat heat \<Longrightarrow> wf_heat (visit heat c)"
  by (simp add: visit_def bump_wf)

lemma visits_wf: "wf_heat heat \<Longrightarrow> wf_heat (foldl visit heat cs)"
  by (induction cs arbitrary: heat) (simp_all add: visit_wf)

lemma visits_total:
  "wf_heat heat \<Longrightarrow> total_minutes (foldl visit heat cs) = total_minutes heat + of_nat (length cs)"
proof (induction cs arbitrary: heat)
  case Nil
  then show ?case by simp
next
  case (Cons c cs)
  have "total_minutes (visit heat c) = total_minutes heat + 1"
    unfolding visit_def using Cons.prems weekday_less bin_idx_less by (rule bump_total)
  with Cons.IH [OF visit_wf [OF Cons.prems]] show ?case by simp
qed

lemma visits_cell:
  "wf_heat heat \<Longrightarrow> w < 7 \<Longrightarrow> b < bins \<Longrightarrow>
   foldl visit heat cs ! w ! b = heat ! w ! b + of_nat (hits w b cs)"
proof (induction cs arbitrary: heat)
  case Nil
  then show ?case by (simp add: hits_def)
next
  case (Cons c cs)
  have one: "visit heat c ! w ! b = heat ! w ! b + (if weekday c = w \<and> bin_idx c = b then 1 else 0)"
    unfolding visit_def
    using Cons.prems(1) weekday_less bin_idx_less Cons.prems(2,3) by (rule bump_cell)
  have "foldl visit (visit heat c) cs ! w ! b = visit heat c ! w ! b + of_nat (hits w b cs)"
    using visit_wf [OF Cons.prems(1)] Cons.prems(2,3) by (rule Cons.IH)
  with one show ?case by (simp add: hits_def)
qed

lemma accumulate_append:
  "accumulate heat (rows1 @ rows2) = accumulate (accumulate heat rows1) rows2"
  by (induction rows1 arbitrary: heat) simp_all

lemma accumulate_wf: "wf_heat heat \<Longrightarrow> wf_heat (accumulate heat rows)"
  by (induction rows arbitrary: heat) (simp_all add: walk_session_cursors visits_wf)

lemma accumulate_total:
  "wf_heat heat \<Longrightarrow>
   total_minutes (accumulate heat rows) = total_minutes heat + of_int (visited_total rows)"
proof (induction rows arbitrary: heat)
  case Nil
  then show ?case by (simp add: visited_total_def)
next
  case (Cons r rows)
  let ?h = "walk_session heat (Start_Time r) (End_Time r)"
  have wf: "wf_heat ?h" using Cons.prems by (simp add: walk_session_cursors visits_wf)
  have "total_minutes ?h = total_minutes heat
          + of_nat (length (session_cursors (Start_Time r) (End_Time r)))"
    using Cons.prems by (simp add: walk_session_cursors visits_total)
  also have "of_nat (length (session_cursors (Start_Time r) (End_Time r)))
             = (of_int (session_minutes (Start_Time r) (End_Time r)) :: rat)"
    using session_cursors_length [of "Start_Time r" "End_Time r"]
    by (metis of_int_of_nat_eq)
  finally have "total_minutes ?h =
      total_minutes heat + of_int (session_minutes (Start_Time r) (End_Time r))" .
  with Cons.IH [OF wf] show ?case by (simp add: visited_total_def)
qed


lemmas time_eval = weekday_def bin_idx_def hour_def minute_def toordinal_def end_of_day_eq

lemmas cutoff_eval =
  recent_def at_or_after_def minus_months_def x_months_def example_now_def at_time_def
  ymd2ord_def days_before_year_def days_before_month_def days_in_month_def is_leap_def Let_def

subsection \<open>Sessions of no length\<close>

text \<open>
  Claim C1 as stated fails: a session whose end equals its start is retained by the
  recency filter, yet the walk visits no minute for it and the matrix stays all zero.
\<close>

theorem instant_session_not_counted:
  "recent [\<lparr>Date = 738886, Start_Time = 63839749500, End_Time = 63839749500, Duration = 0\<rparr>]
      example_now
     = [\<lparr>Date = 738886, Start_Time = 63839749500, End_Time = 63839749500, Duration = 0\<rparr>] \<and>
   session_cursors 63839749500 63839749500 = [] \<and>
   minute_counts
      [\<lparr>Date = 738886, Start_Time = 63839749500, End_Time = 63839749500, Duration = 0\<rparr>]
      example_now = zero_heat \<and>
   total_minutes (minute_counts
      [\<lparr>Date = 738886, Start_Time = 63839749500, End_Time = 63839749500, Duration = 0\<rparr>]
      example_now) \<noteq> 1"
proof -
  have r: "recent [\<lparr>Date = 738886, Start_Time = 63839749500, End_Time = 63839749500, Duration = 0\<rparr>]
      example_now
     = [\<lparr>Date = 738886, Start_Time = 63839749500, End_Time = 63839749500, Duration = 0\<rparr>]"
    by (simp add: cutoff_eval)
  have c: "session_cursors 63839749500 63839749500 = []"
    by (subst session_cursors.simps) simp
  have w: "walk_session zero_heat 63839749500 63839749500 = zero_heat"
    by (subst walk_session.simps) simp
  from r c w show ?thesis
    by (simp add: minute_counts_def total_zero_heat)
qed

text \<open>
  Claim C1, as amended.  A session whose end equals its start is visited at no minute:
  it leaves every cell as it is, whatever sessions come before and after it.  A session
  that ends after its start, less than a minute later and on the same day, is visited at
  exactly one minute, its start, and adds one to the cell of that instant.
\<close>

theorem instant_session_ignored:
  "(Start_Time row = End_Time row \<longrightarrow>
      session_cursors (Start_Time row) (End_Time row) = [] \<and>
      accumulate heat (pre @ row # post) = accumulate heat (pre @ post)) \<and>
   (s < e \<and> e < s + 60 \<and> e \<le> end_of_day s \<longrightarrow>
      session_cursors s e = [s] \<and>
      walk_session heat s e = bump heat (weekday s) (bin_idx s))"
proof (intro conjI impI)
  assume eq: "Start_Time row = End_Time row"
  show "session_cursors (Start_Time row) (End_Time row) = []"
    by (subst session_cursors.simps) (simp add: eq)
  have "walk_session h (Start_Time row) (End_Time row) = h" for h
    by (subst walk_session.simps) (simp add: eq)
  then show "accumulate heat (pre @ row # post) = accumulate heat (pre @ post)"
    by (simp add: accumulate_append)
next
  assume a: "s < e \<and> e < s + 60 \<and> e \<le> end_of_day s"
  then have m: "min e (end_of_day s) = e" by simp
  have one: "minute_cursors s e = [s]"
    using a by (subst minute_cursors.simps, subst minute_cursors.simps) simp
  have none: "session_cursors (e + 1) e = []"
    by (subst session_cursors.simps) simp
  show c: "session_cursors s e = [s]"
    using a by (subst session_cursors.simps) (simp add: Let_def m one none)
  show "walk_session heat s e = bump heat (weekday s) (bin_idx s)"
    by (simp add: walk_session_cursors c visit_def)
qed

theorem instant_session_ignored_witness:
  "Start_Time \<lparr>Date = 738886, Start_Time = 63839749500, End_Time = 63839749500, Duration = 0\<rparr>
     = End_Time \<lparr>Date = 738886, Start_Time = 63839749500, End_Time = 63839749500, Duration = 0\<rparr> \<and>
   accumulate zero_heat
     [\<lparr>Date = 738886, Start_Time = 63839749500, End_Time = 63839749500, Duration = 0\<rparr>]
     = zero_heat \<and>
   (63839749500::int) < 63839749530 \<and> (63839749530::int) < 63839749500 + 60 \<and>
   63839749530 \<le> end_of_day 63839749500 \<and>
   session_cursors 63839749500 63839749530 = [63839749500]"
proof -
  have d: "63839749530 \<le> end_of_day 63839749500" by (simp add: end_of_day_eq)
  from instant_session_ignored [where heat = zero_heat and pre = "[]" and post = "[]"
      and s = 63839749500 and e = 63839749530
      and row = "\<lparr>Date = 738886, Start_Time = 63839749500, End_Time = 63839749500, Duration = 0\<rparr>"] d
  show ?thesis by simp
qed

subsection \<open>Sessions across midnight\<close>

lemma minute_cursors_bounds: "c \<in> set (minute_cursors c0 e0) \<Longrightarrow> c0 \<le> c \<and> c \<le> e0"
proof (induction c0 e0 rule: minute_cursors.induct)
  case (1 c0 e0)
  show ?case
  proof (cases "c0 \<le> e0")
    case True
    with "1.prems" have "c = c0 \<or> c \<in> set (minute_cursors (c0 + 60) e0)"
      by (subst (asm) minute_cursors.simps) simp
    with True "1.IH" show ?thesis by auto
  next
    case False
    with "1.prems" show ?thesis by (subst (asm) minute_cursors.simps) simp
  qed
qed

lemma session_cursors_bounds: "c \<in> set (session_cursors s e) \<Longrightarrow> s \<le> c \<and> c \<le> e"
proof (induction s e rule: session_cursors.induct)
  case (1 s e)
  show ?case
  proof (cases "s < e")
    case True
    let ?seg = "min e (end_of_day s)"
    from True "1.prems" have "c \<in> set (minute_cursors s ?seg) \<or> c \<in> set (session_cursors (?seg + 1) e)"
      by (subst (asm) session_cursors.simps) (simp add: Let_def)
    then show ?thesis
    proof
      assume "c \<in> set (minute_cursors s ?seg)"
      then have "s \<le> c \<and> c \<le> ?seg" by (rule minute_cursors_bounds)
      then show ?thesis by simp
    next
      assume "c \<in> set (session_cursors (?seg + 1) e)"
      then have "?seg + 1 \<le> c \<and> c \<le> e" using "1.IH" [OF True refl refl] by blast
      moreover have "s \<le> ?seg" using True end_of_day_ge [of s] by (simp add: min_def)
      ultimately show ?thesis by linarith
    qed
  next
    case False
    with "1.prems" show ?thesis by (subst (asm) session_cursors.simps) simp
  qed
qed

lemma session_cursors_head: "s < e \<Longrightarrow> s \<in> set (session_cursors s e)"
proof -
  assume lt: "s < e"
  then have le: "s \<le> min e (end_of_day s)" using end_of_day_ge [of s] by simp
  then have "s \<in> set (minute_cursors s (min e (end_of_day s)))"
    by (subst minute_cursors.simps) simp
  with lt show ?thesis by (subst session_cursors.simps) (simp add: Let_def)
qed

lemma hits_member: "c \<in> set cs \<Longrightarrow> 1 \<le> hits (weekday c) (bin_idx c) cs"
proof -
  assume "c \<in> set cs"
  then have "c \<in> set (filter (\<lambda>x. weekday x = weekday c \<and> bin_idx x = bin_idx c) cs)"
    by simp
  then have "filter (\<lambda>x. weekday x = weekday c \<and> bin_idx x = bin_idx c) cs \<noteq> []"
    by (metis empty_iff empty_set)
  then show ?thesis by (simp add: hits_def Suc_le_eq)
qed

lemma visited_cell_positive:
  assumes "c \<in> set (session_cursors s e)"
  shows "1 \<le> walk_session zero_heat s e ! weekday c ! bin_idx c"
proof -
  have "walk_session zero_heat s e ! weekday c ! bin_idx c
        = zero_heat ! weekday c ! bin_idx c
          + of_nat (hits (weekday c) (bin_idx c) (session_cursors s e))"
    unfolding walk_session_cursors
    using wf_zero_heat weekday_less bin_idx_less by (rule visits_cell)
  moreover have "zero_heat ! weekday c ! bin_idx c = 0"
    using weekday_less [of c] bin_idx_less [of c] by (simp add: zero_heat_def)
  moreover have "(1::rat) \<le> of_nat (hits (weekday c) (bin_idx c) (session_cursors s e))"
    using hits_member [OF assms] by (metis of_nat_1 of_nat_le_iff)
  ultimately show ?thesis by simp
qed

lemma midnight_bin: "bin_idx (end_of_day s + 1) = 0"
  by (simp add: bin_idx_def hour_def minute_def end_of_day_eq)

text \<open>
  Claim C3, as amended.  A session that ends after 23:59:59 of the day of its start is
  split there: the walk first covers the minutes from the start to 23:59:59, then goes
  on as the walk of a session that starts one second later, at 00:00:00 of the next
  day.  When the session ends after that instant, the instant is one of the minutes
  visited and the first bin of its weekday holds at least one minute afterwards; when
  the session ends exactly at that instant, the walk stops after the first segment and
  the instant is not visited.  No visited minute lies before the start or after the
  end.  The session from 2024-01-01 23:45:00 (a Monday) to 2024-01-02 00:15:00 puts 15
  minutes into the last bin of the Monday row and 16 minutes into the first bin of the
  Tuesday row.
\<close>

theorem midnight_split:
  assumes "end_of_day s < e"
  shows "walk_session heat s e =
           walk_session (walk_minutes heat s (end_of_day s)) (end_of_day s + 1) e \<and>
         session_cursors s e =
           minute_cursors s (end_of_day s) @ session_cursors (end_of_day s + 1) e \<and>
         walk_session heat s e = foldl visit heat (session_cursors s e) \<and>
         (end_of_day s + 1 < e \<longrightarrow>
            end_of_day s + 1 \<in> set (session_cursors s e) \<and>
            1 \<le> walk_session zero_heat s e ! weekday (end_of_day s + 1) ! 0) \<and>
         (e = end_of_day s + 1 \<longrightarrow>
            session_cursors s e = minute_cursors s (end_of_day s) \<and>
            e \<notin> set (session_cursors s e) \<and>
            walk_session heat s e = walk_minutes heat s (end_of_day s)) \<and>
         toordinal (end_of_day s + 1) = toordinal s + 1 \<and>
         hour (end_of_day s + 1) = 0 \<and> minute (end_of_day s + 1) = 0 \<and>
         (\<forall>c \<in> set (session_cursors s e). s \<le> c \<and> c \<le> e) \<and>
         strptime ''24-01-01 23:45:00'' = Inr 63839749500 \<and>
         strptime ''24-01-02 00:15:00'' = Inr 63839751300 \<and>
         weekday 63839749500 = 0 \<and> weekday 63839751300 = 1 \<and>
         walk_session zero_heat 63839749500 63839751300 ! 0 ! 47 = 15 \<and>
         walk_session zero_heat 63839749500 63839751300 ! 1 ! 0 = 16"
proof -
  from assms end_of_day_ge [of s] have lt: "s < e" by simp
  from assms have m: "min e (end_of_day s) = end_of_day s" by simp
  have 1: "walk_session heat s e =
           walk_session (walk_minutes heat s (end_of_day s)) (end_of_day s + 1) e"
    using lt by (subst walk_session.simps) (simp add: Let_def m)
  have 2: "session_cursors s e =
           minute_cursors s (end_of_day s) @ session_cursors (end_of_day s + 1) e"
    using lt by (subst session_cursors.simps) (simp add: Let_def m)
  have 3: "walk_session heat s e = foldl visit heat (session_cursors s e)"
    by (rule walk_session_cursors)
  have 4: "end_of_day s + 1 \<in> set (session_cursors s e) \<and>
           1 \<le> walk_session zero_heat s e ! weekday (end_of_day s + 1) ! 0"
    if after: "end_of_day s + 1 < e"
  proof -
    have "end_of_day s + 1 \<in> set (session_cursors (end_of_day s + 1) e)"
      using after by (rule session_cursors_head)
    then have v: "end_of_day s + 1 \<in> set (session_cursors s e)" unfolding 2 by simp
    have "1 \<le> walk_session zero_heat s e ! weekday (end_of_day s + 1) ! 0"
      using visited_cell_positive [OF v] by (simp only: midnight_bin)
    with v show ?thesis by blast
  qed
  have 5: "session_cursors s e = minute_cursors s (end_of_day s) \<and>
           e \<notin> set (session_cursors s e) \<and>
           walk_session heat s e = walk_minutes heat s (end_of_day s)"
    if at: "e = end_of_day s + 1"
  proof -
    have stop: "session_cursors (end_of_day s + 1) e = []"
      by (subst session_cursors.simps) (simp add: at)
    have c: "session_cursors s e = minute_cursors s (end_of_day s)"
      by (simp add: 2 stop)
    have "\<not> e \<le> end_of_day s" using assms by simp
    then have n: "e \<notin> set (session_cursors s e)"
      unfolding c using minute_cursors_bounds [of e s "end_of_day s"] by blast
    have "walk_session (walk_minutes heat s (end_of_day s)) (end_of_day s + 1) e
            = walk_minutes heat s (end_of_day s)"
      by (subst walk_session.simps) (simp add: at)
    then have w: "walk_session heat s e = walk_minutes heat s (end_of_day s)"
      by (simp only: 1)
    from c n w show ?thesis by blast
  qed
  have 6: "toordinal (end_of_day s + 1) = toordinal s + 1"
    by (simp add: toordinal_def end_of_day_eq)
  have 7: "hour (end_of_day s + 1) = 0" "minute (end_of_day s + 1) = 0"
    by (simp_all add: hour_def minute_def end_of_day_eq)
  have 8: "\<forall>c \<in> set (session_cursors s e). s \<le> c \<and> c \<le> e"
    using session_cursors_bounds by blast
  have 9: "strptime ''24-01-01 23:45:00'' = Inr 63839749500"
          "strptime ''24-01-02 00:15:00'' = Inr 63839751300"
    by (simp_all add: strptime_eval)
  have 10: "weekday 63839749500 = 0" "weekday 63839751300 = 1"
    by (simp_all add: weekday_def toordinal_def)
  have 11: "walk_session zero_heat 63839749500 63839751300 ! 0 ! 47 = 15"
    by code_simp
  have 12: "walk_session zero_heat 63839749500 63839751300 ! 1 ! 0 = 16"
    by code_simp
  from 1 2 3 4 5 6 7 8 9 10 11 12 show ?thesis by blast
qed

theorem midnight_split_witness:
  "end_of_day 63839749500 < 63839751300 \<and>
   end_of_day 63839749500 + 1 < 63839751300 \<and>
   end_of_day 63839749500 + 1 = 63839750400 \<and>
   63839750400 \<in> set (session_cursors 63839749500 63839751300) \<and>
   1 \<le> walk_session zero_heat 63839749500 63839751300 ! weekday 63839750400 ! 0 \<and>
   toordinal 63839750400 = toordinal 63839749500 + 1 \<and>
   hour 63839750400 = 0 \<and> minute 63839750400 = 0 \<and>
   walk_session zero_heat 63839749500 63839751300
     = foldl visit zero_heat (session_cursors 63839749500 63839751300) \<and>
   end_of_day 63839749500 < 63839750400 \<and>
   63839750400 \<notin> set (session_cursors 63839749500 63839750400) \<and>
   walk_session zero_heat 63839749500 63839750400
     = walk_minutes zero_heat 63839749500 (end_of_day 63839749500)"
proof -
  have d: "end_of_day 63839749500 + 1 = 63839750400" by (simp add: end_of_day_eq)
  have d': "63839750400 = end_of_day 63839749500 + 1" by (simp add: end_of_day_eq)
  from d have h0: "end_of_day 63839749500 < 63839751300" by simp
  from d have h: "end_of_day 63839749500 + 1 < 63839751300" by simp
  from d have k: "end_of_day 63839749500 < 63839750400" by simp
  note t = midnight_split [OF h0, of zero_heat]
  note u = midnight_split [OF k, of zero_heat]
  from t h have "end_of_day 63839749500 + 1 \<in> set (session_cursors 63839749500 63839751300)
      \<and> 1 \<le> walk_session zero_heat 63839749500 63839751300
               ! weekday (end_of_day 63839749500 + 1) ! 0"
    by blast
  then have 1: "63839750400 \<in> set (session_cursors 63839749500 63839751300)
      \<and> 1 \<le> walk_session zero_heat 63839749500 63839751300 ! weekday 63839750400 ! 0"
    by (simp only: d)
  from t have "toordinal (end_of_day 63839749500 + 1) = toordinal 63839749500 + 1
      \<and> hour (end_of_day 63839749500 + 1) = 0 \<and> minute (end_of_day 63839749500 + 1) = 0"
    by blast
  then have 2: "toordinal 63839750400 = toordinal 63839749500 + 1
      \<and> hour 63839750400 = 0 \<and> minute 63839750400 = 0"
    by (simp only: d)
  from t have 3: "walk_session zero_heat 63839749500 63839751300
     = foldl visit zero_heat (session_cursors 63839749500 63839751300)"
    by blast
  from u d' have 4: "63839750400 \<notin> set (session_cursors 63839749500 63839750400) \<and>
     walk_session zero_heat 63839749500 63839750400
       = walk_minutes zero_heat 63839749500 (end_of_day 63839749500)"
    by blast
  from h0 h d 1 2 3 k 4 show ?thesis by blast
qed

text \<open>
  Claim C3 as stated fails for a session that ends exactly at midnight: the session
  from 2024-01-01 23:45:00 to 2024-01-02 00:00:00 is split at 23:59:59 and the cursor
  is resumed at 00:00:00, but the outer loop, which runs while the cursor is before
  the end, stops there: 00:00:00 of Tuesday is not visited and the Tuesday row stays
  zero.
\<close>

theorem midnight_end_not_visited:
  "strptime ''24-01-01 23:45:00'' = Inr 63839749500 \<and>
   strptime ''24-01-02 00:00:00'' = Inr 63839750400 \<and>
   toordinal 63839750400 = toordinal 63839749500 + 1 \<and>
   end_of_day 63839749500 = 63839750399 \<and>
   min 63839750400 (end_of_day 63839749500) = 63839750399 \<and>
   session_cursors 63839749500 63839750400 = minute_cursors 63839749500 63839750399 \<and>
   63839750400 \<notin> set (session_cursors 63839749500 63839750400) \<and>
   length (session_cursors 63839749500 63839750400) = 15 \<and>
   weekday 63839750400 = 1 \<and> bin_idx 63839750400 = 0 \<and>
   walk_session zero_heat 63839749500 63839750400 ! 0 ! 47 = 15 \<and>
   walk_session zero_heat 63839749500 63839750400 ! 1 = replicate 48 0"
proof -
  have 1: "strptime ''24-01-01 23:45:00'' = Inr 63839749500"
          "strptime ''24-01-02 00:00:00'' = Inr 63839750400"
    by (simp_all add: strptime_eval)
  have 2: "toordinal 63839750400 = toordinal 63839749500 + 1" by (simp add: toordinal_def)
  have 3: "end_of_day 63839749500 = 63839750399" by (simp add: end_of_day_eq)
  have 4: "min 63839750400 (end_of_day 63839749500) = 63839750399" by (simp add: 3)
  have 5: "session_cursors 63839749500 63839750400 = minute_cursors 63839749500 63839750399"
    by code_simp
  have 6: "63839750400 \<notin> set (session_cursors 63839749500 63839750400)"
    unfolding 5 using minute_cursors_bounds [of 63839750400 63839749500 63839750399] by auto
  have 7: "length (session_cursors 63839749500 63839750400) = 15" by code_simp
  have 8: "weekday 63839750400 = 1" "bin_idx 63839750400 = 0"
    by (simp_all add: weekday_def toordinal_def bin_idx_def hour_def minute_def)
  have 9: "walk_session zero_heat 63839749500 63839750400 ! 0 ! 47 = 15" by code_simp
  have 10: "walk_session zero_heat 63839749500 63839750400 ! 1 = replicate 48 0" by code_simp
  from 1 2 3 4 5 6 7 8 9 10 show ?thesis by blast
qed

subsection \<open>The total of the matrix\<close>

lemma minute_counts_total:
  "total_minutes (minute_counts df today) = of_int (visited_total (recent df today))"
  unfolding minute_counts_def
  using accumulate_total [OF wf_zero_heat, of "recent df today"] by (simp add: total_zero_heat)

text \<open>
  Claim C4 as stated fails: for the session from 23:45:30 to 00:15:00 of the next day the
  walk visits 15 minutes up to 23:59:30 and 16 minutes from 00:00:00 to 00:15:00, 31 in
  all, while \<open>floor((end - start) in minutes) + 1\<close> is 30.
\<close>

theorem total_not_inclusive_count:
  "recent [\<lparr>Date = 738886, Start_Time = 63839749530, End_Time = 63839751300, Duration = 1770\<rparr>]
      example_now
     = [\<lparr>Date = 738886, Start_Time = 63839749530, End_Time = 63839751300, Duration = 1770\<rparr>] \<and>
   total_minutes (minute_counts
      [\<lparr>Date = 738886, Start_Time = 63839749530, End_Time = 63839751300, Duration = 1770\<rparr>]
      example_now) = 31 \<and>
   claimed_total
      [\<lparr>Date = 738886, Start_Time = 63839749530, End_Time = 63839751300, Duration = 1770\<rparr>] = 30"
proof -
  have r: "recent [\<lparr>Date = 738886, Start_Time = 63839749530, End_Time = 63839751300, Duration = 1770\<rparr>]
      example_now
     = [\<lparr>Date = 738886, Start_Time = 63839749530, End_Time = 63839751300, Duration = 1770\<rparr>]"
    by (simp add: cutoff_eval)
  have v: "visited_total
      [\<lparr>Date = 738886, Start_Time = 63839749530, End_Time = 63839751300, Duration = 1770\<rparr>] = 31"
    by (simp add: visited_total_def session_minutes_def end_of_day_eq)
  have t: "total_minutes (minute_counts
      [\<lparr>Date = 738886, Start_Time = 63839749530, End_Time = 63839751300, Duration = 1770\<rparr>]
      example_now) = 31"
    unfolding minute_counts_total r v by simp
  have c: "claimed_total
      [\<lparr>Date = 738886, Start_Time = 63839749530, End_Time = 63839751300, Duration = 1770\<rparr>] = 30"
    by (simp add: claimed_total_def inclusive_minutes_def)
  from r t c show ?thesis by blast
qed

text \<open>
  Claim C4, as amended.  Before the conversions that follow the loop, the sum of all cells
  is the sum over the recent sessions of the minutes the walk visits: none for a session
  that does not end after its start; otherwise the inclusive minute count from the start
  to the earlier of the end and 23:59:59 of the start's day, plus, when the end is past
  the following 00:00:00, the whole minutes from that 00:00:00 to the end, an end that
  is itself a 00:00:00 not counted.  For a session that ends after its start on the same
  day this is \<open>floor((end - start) in minutes) + 1\<close>.
\<close>

theorem total_is_visited_minutes:
  "total_minutes (minute_counts df today) = of_int (visited_total (recent df today)) \<and>
   (s < e \<and> toordinal s = toordinal e \<longrightarrow> session_minutes s e = (e - s) div 60 + 1) \<and>
   ((\<forall>r \<in> set (recent df today).
        Start_Time r < End_Time r \<and> toordinal (Start_Time r) = toordinal (End_Time r))
      \<longrightarrow> total_minutes (minute_counts df today) = of_int (claimed_total (recent df today)))"
proof (intro conjI impI)
  show t: "total_minutes (minute_counts df today) = of_int (visited_total (recent df today))"
    by (rule minute_counts_total)
  have same: "session_minutes s e = (e - s) div 60 + 1"
    if "s < e \<and> toordinal s = toordinal e" for s e
  proof -
    from that have "e div 86400 = s div 86400" by (simp add: toordinal_def)
    then have "end_of_day e = end_of_day s" by (simp add: end_of_day_eq)
    with end_of_day_ge [of e] have "e \<le> end_of_day s" by simp
    with that show ?thesis by (simp add: session_minutes_def)
  qed
  then show "session_minutes s e = (e - s) div 60 + 1"
    if "s < e \<and> toordinal s = toordinal e" using that by blast
  assume all: "\<forall>r \<in> set (recent df today).
        Start_Time r < End_Time r \<and> toordinal (Start_Time r) = toordinal (End_Time r)"
  have "map (\<lambda>r. session_minutes (Start_Time r) (End_Time r)) (recent df today)
        = map inclusive_minutes (recent df today)"
    using all same by (intro map_cong refl) (simp add: inclusive_minutes_def)
  then have "visited_total (recent df today) = claimed_total (recent df today)"
    unfolding visited_total_def claimed_total_def by (rule arg_cong [where f = sum_list])
  with t show "total_minutes (minute_counts df today) = of_int (claimed_total (recent df today))"
    by simp
qed

theorem total_is_visited_minutes_witness:
  "recent [\<lparr>Date = 738888, Start_Time = 63839872800, End_Time = 63839876400, Duration = 3600\<rparr>]
      example_now
     = [\<lparr>Date = 738888, Start_Time = 63839872800, End_Time = 63839876400, Duration = 3600\<rparr>] \<and>
   (63839872800::int) < 63839876400 \<and> toordinal 63839872800 = toordinal 63839876400 \<and>
   session_minutes 63839872800 63839876400 = 61 \<and>
   claimed_total
      [\<lparr>Date = 738888, Start_Time = 63839872800, End_Time = 63839876400, Duration = 3600\<rparr>] = 61 \<and>
   total_minutes (minute_counts
      [\<lparr>Date = 738888, Start_Time = 63839872800, End_Time = 63839876400, Duration = 3600\<rparr>]
      example_now) = 61"
proof -
  have r: "recent [\<lparr>Date = 738888, Start_Time = 63839872800, End_Time = 63839876400, Duration = 3600\<rparr>]
      example_now
     = [\<lparr>Date = 738888, Start_Time = 63839872800, End_Time = 63839876400, Duration = 3600\<rparr>]"
    by (simp add: cutoff_eval)
  have o: "toordinal 63839872800 = toordinal 63839876400" by (simp add: toordinal_def)
  have c: "claimed_total
      [\<lparr>Date = 738888, Start_Time = 63839872800, End_Time = 63839876400, Duration = 3600\<rparr>] = 61"
    by (simp add: claimed_total_def inclusive_minutes_def)
  note t = total_is_visited_minutes
    [of "[\<lparr>Date = 738888, Start_Time = 63839872800, End_Time = 63839876400, Duration = 3600\<rparr>]"
        example_now 63839872800 63839876400]
  from t o have "session_minutes 63839872800 63839876400 = (63839876400 - 63839872800) div 60 + 1"
    by simp
  then have 1: "session_minutes 63839872800 63839876400 = 61" by simp
  have all: "\<forall>r \<in> set (recent
        [\<lparr>Date = 738888, Start_Time = 63839872800, End_Time = 63839876400, Duration = 3600\<rparr>]
        example_now).
      Start_Time r < End_Time r \<and> toordinal (Start_Time r) = toordinal (End_Time r)"
    unfolding r using o by simp
  from t all have "total_minutes (minute_counts
      [\<lparr>Date = 738888, Start_Time = 63839872800, End_Time = 63839876400, Duration = 3600\<rparr>]
      example_now)
    = of_int (claimed_total (recent
        [\<lparr>Date = 738888, Start_Time = 63839872800, End_Time = 63839876400, Duration = 3600\<rparr>]
        example_now))"
    by blast
  then have 2: "total_minutes (minute_counts
      [\<lparr>Date = 738888, Start_Time = 63839872800, End_Time = 63839876400, Duration = 3600\<rparr>]
      example_now) = 61"
    unfolding r c by simp
  from r o 1 c 2 show ?thesis by simp
qed

subsection \<open>No recent session\<close>






subsection \<open>The density does not read the durations\<close>













end
